theory Spec2Isabelle
  imports Complex_Main "HOL-Library.Log_Nat"
begin

section \<open>Python values used by \<open>src/audio/text_to_speech.py\<close>\<close>

subsection \<open>Strings\<close>

text \<open>
  A Python \<open>str\<close> is a sequence of Unicode code points; \<open>len\<close> counts code points and
  single characters compare by code point. The byte strings of HOL are embedded by
  \<open>ustr\<close> (every ASCII literal of the source is written \<open>ustr ''...''\<close>).
\<close>

type_synonym ustring = "nat list"

definition ustr :: "string \<Rightarrow> ustring" where
  "ustr s = map of_char s"

text \<open>
  \<open>str.split()\<close> without arguments splits at runs of whitespace and returns no empty
  token. Whitespace is what CPython's \<open>Py_UNICODE_ISSPACE\<close> accepts.
\<close>

definition isspace :: "nat \<Rightarrow> bool" where
  "isspace c \<longleftrightarrow>
     (0x09 \<le> c \<and> c \<le> 0x0D) \<or> (0x1C \<le> c \<and> c \<le> 0x20) \<or> c = 0x85 \<or> c = 0xA0 \<or>
     c = 0x1680 \<or> (0x2000 \<le> c \<and> c \<le> 0x200A) \<or> c = 0x2028 \<or> c = 0x2029 \<or>
     c = 0x202F \<or> c = 0x205F \<or> c = 0x3000"

fun split_from :: "ustring \<Rightarrow> ustring \<Rightarrow> ustring list" where
  "split_from cur [] = (if cur = [] then [] else [cur])"
| "split_from cur (c # cs) =
     (if isspace c then (if cur = [] then split_from [] cs else cur # split_from [] cs)
      else split_from (cur @ [c]) cs)"

definition str_split :: "ustring \<Rightarrow> ustring list" where
  "str_split t = split_from [] t"

text \<open>The test of \<open>auto_detect_language\<close> for the Devanagari block, U+0900 to U+097F.\<close>

definition devanagari :: "nat \<Rightarrow> bool" where
  "devanagari c \<longleftrightarrow> 0x0900 \<le> c \<and> c \<le> 0x097F"

text \<open>
  \<open>str.lower()\<close> follows the Unicode case mapping, which is not part of the repository.
  On text made of ASCII, Devanagari and whitespace code points only, it maps \<open>A\<close>..\<open>Z\<close>
  to \<open>a\<close>..\<open>z\<close> and leaves everything else alone (the Devanagari block and the
  whitespace characters have no case); that part is written out. On any other text the
  result is taken from the table \<open>unicode_lower\<close> of the environment (see below).
\<close>

definition ascii_lower :: "nat \<Rightarrow> nat" where
  "ascii_lower c = (if 65 \<le> c \<and> c \<le> 90 then c + 32 else c)"

definition plain_char :: "nat \<Rightarrow> bool" where
  "plain_char c \<longleftrightarrow> c < 128 \<or> devanagari c \<or> isspace c"

subsection \<open>Floats\<close>

text \<open>
  The two thresholds are compared in binary64 arithmetic: \<open>hinglish_count / len(words) > 0.2\<close>
  divides two ints into a float, and \<open>devanagari_count > len(text) * 0.3\<close> converts an int
  to a float, multiplies two floats and compares an int with the product. Only finite
  non-negative floats occur. A float is kept as mantissa and binary exponent and stands
  for \<open>m * 2 ^ e\<close>; \<open>round_ratio a b\<close> is the float nearest to \<open>a / b\<close> with a 53 bit
  mantissa, ties going to the even mantissa. Exponent overflow and subnormal numbers
  are out of reach of lengths and counts and are not modelled.
\<close>

type_synonym float = "int \<times> int"

definition dval :: "float \<Rightarrow> real" where
  "dval x = of_int (fst x) * 2 powi (snd x)"

definition round_ratio :: "int \<Rightarrow> int \<Rightarrow> float" where
  "round_ratio a b =
     (if a \<le> 0 then (0, 0) else
      let e0 = bitlen a - bitlen b - 53;
          e = (if 2 ^ 53 * b * 2 ^ nat e0 \<le> a * 2 ^ nat (- e0) then e0 + 1 else e0);
          num = a * 2 ^ nat (- e);
          den = b * 2 ^ nat e;
          q = num div den;
          r = num mod den
      in (if 2 * r < den \<or> (2 * r = den \<and> even q) then q else q + 1, e))"

text \<open>A decimal literal such as \<open>0.2\<close> is read as the float nearest to \<open>2 / 10\<close>.\<close>

definition float_literal :: "int \<Rightarrow> int \<Rightarrow> float" where
  "float_literal a b = round_ratio a b"

definition float_of_int :: "int \<Rightarrow> float" where
  "float_of_int n = round_ratio n 1"

definition float_mul :: "float \<Rightarrow> float \<Rightarrow> float" where
  "float_mul x y =
     round_ratio (fst x * fst y * 2 ^ nat (snd x + snd y)) (2 ^ nat (- (snd x + snd y)))"

definition float_gt :: "float \<Rightarrow> float \<Rightarrow> bool" where
  "float_gt x y \<longleftrightarrow>
     fst y * 2 ^ nat (snd y - snd x) < fst x * 2 ^ nat (snd x - snd y)"

definition int_gt_float :: "int \<Rightarrow> float \<Rightarrow> bool" where
  "int_gt_float c y \<longleftrightarrow> fst y * 2 ^ nat (snd y) < c * 2 ^ nat (- snd y)"

subsection \<open>Exceptions\<close>

text \<open>
  Every exception below is a subclass of \<open>Exception\<close>, so \<open>except Exception\<close> catches
  each of them. A computation that may raise returns \<open>Inl\<close> of the exception.
\<close>

datatype exn =
    ZeroDivisionError | AssertionError | ValueError | GTTSError | OSError | PygameError

definition int_truediv :: "int \<Rightarrow> int \<Rightarrow> exn + float" where
  "int_truediv a b = (if b = 0 then Inl ZeroDivisionError else Inr (round_ratio a b))"

section \<open>The collaborators\<close>

text \<open>
  gTTS, pygame, \<open>tempfile\<close> and \<open>os\<close> are outside the repository. Their answers are
  the fields of an environment: what each call returns or raises. \<open>music_get_busy k\<close> is
  the answer to the \<open>k\<close>-th poll of a playback.
\<close>

type_synonym path = ustring

datatype save_outcome =
    Written
  | SaveFailed exn bool

record env =
  unicode_lower :: "ustring \<Rightarrow> ustring"
  mixer_init :: "exn option"
  gtts_new :: "ustring \<Rightarrow> ustring \<Rightarrow> bool \<Rightarrow> exn option"
  gtts_save :: "ustring \<Rightarrow> ustring \<Rightarrow> bool \<Rightarrow> path \<Rightarrow> save_outcome"
  named_temporary_file :: "exn + path"
  file_close :: "exn option"
  os_unlink :: "path \<Rightarrow> exn option"
  music_load :: "path \<Rightarrow> exn option"
  music_play :: "exn option"
  music_get_busy :: "nat \<Rightarrow> exn + bool"
  sound_new :: "path \<Rightarrow> exn option"
  sound_play :: "exn option"
  mixer_get_busy :: "nat \<Rightarrow> exn + bool"

definition str_lower :: "env \<Rightarrow> ustring \<Rightarrow> ustring" where
  "str_lower E t = (if list_all plain_char t then map ascii_lower t else unicode_lower E t)"

text \<open>Every call that leaves the process is written to a log, in order.\<close>

datatype event =
    GttsNew ustring ustring bool
  | GttsSave ustring ustring bool path
  | TempFile path
  | Unlink path
  | MusicLoad path
  | MusicPlay
  | SoundNew path
  | SoundPlay

section \<open>The \<open>TextToSpeech\<close> object and the store\<close>

text \<open>
  \<open>supported_languages\<close> is a dict object, \<open>get_supported_languages\<close> hands a dict to the
  caller, and the caller may mutate what it was given. Dicts therefore live in a store
  and the object holds the address of its table.
\<close>

type_synonym dict = "ustring \<rightharpoonup> ustring"
type_synonym addr = nat

record tts =
  supported_languages :: addr
  hinglish_keywords :: "ustring list"
  current_language :: ustring
  slow_speech :: bool
  audio_initialized :: bool

record state =
  heap :: "addr \<Rightarrow> dict"
  heap_next :: addr
  self :: tts
  files :: "path set"
  calls :: "event list"

definition language_names :: "(string \<times> string) list" where
  "language_names =
    [(''en'', ''English''), (''es'', ''Spanish''), (''fr'', ''French''), (''de'', ''German''),
     (''it'', ''Italian''), (''pt'', ''Portuguese''), (''ru'', ''Russian''),
     (''ja'', ''Japanese''), (''ko'', ''Korean''), (''zh'', ''Chinese (Mandarin)''),
     (''ar'', ''Arabic''), (''hi'', ''Hindi''), (''bn'', ''Bengali''), (''ur'', ''Urdu''),
     (''tr'', ''Turkish''), (''pl'', ''Polish''), (''nl'', ''Dutch''), (''sv'', ''Swedish''),
     (''da'', ''Danish''), (''no'', ''Norwegian''), (''fi'', ''Finnish''), (''cs'', ''Czech''),
     (''hu'', ''Hungarian''), (''ro'', ''Romanian''), (''sk'', ''Slovak''),
     (''bg'', ''Bulgarian''), (''hr'', ''Croatian''), (''sr'', ''Serbian''),
     (''uk'', ''Ukrainian''), (''el'', ''Greek''), (''he'', ''Hebrew''), (''th'', ''Thai''),
     (''vi'', ''Vietnamese''), (''id'', ''Indonesian''), (''ms'', ''Malay''),
     (''tl'', ''Filipino''), (''sw'', ''Swahili''), (''af'', ''Afrikaans''), (''ta'', ''Tamil''),
     (''te'', ''Telugu''), (''ml'', ''Malayalam''), (''kn'', ''Kannada''),
     (''gu'', ''Gujarati''), (''pa'', ''Punjabi''), (''mr'', ''Marathi''), (''or'', ''Odia''),
     (''as'', ''Assamese''), (''ne'', ''Nepali'')]"

definition keyword_names :: "string list" where
  "keyword_names =
    [''hai'', ''hain'', ''kar'', ''kya'', ''kaise'', ''kahan'', ''kab'', ''kyun'', ''kaun'',
     ''aur'', ''main'', ''hum'', ''tum'', ''aap'', ''yeh'', ''woh'', ''iske'', ''uske'',
     ''mera'', ''tera'', ''hamara'', ''tumhara'', ''apka'', ''iska'', ''uska'',
     ''karna'', ''hona'', ''jana'', ''aana'', ''lena'', ''dena'', ''dekha'', ''suna'',
     ''accha'', ''bura'', ''bada'', ''chota'', ''naya'', ''purana'', ''thik'', ''galat'',
     ''bahut'', ''kam'', ''zyada'', ''sab'', ''kuch'', ''koi'', ''sabko'', ''kisiko'']"

definition initial_languages :: dict where
  "initial_languages = map_of (map (\<lambda>(k, v). (ustr k, ustr v)) language_names)"

definition init_audio :: "env \<Rightarrow> state \<Rightarrow> state" where
  "init_audio E st =
     (case mixer_init E of
        None \<Rightarrow> st\<lparr>self := (self st)\<lparr>audio_initialized := True\<rparr>\<rparr>
      | Some e \<Rightarrow> st\<lparr>self := (self st)\<lparr>audio_initialized := False\<rparr>\<rparr>)"

text \<open>\<open>TextToSpeech()\<close>, constructed in a process that so far holds the files \<open>fs\<close>.\<close>

definition init :: "env \<Rightarrow> path set \<Rightarrow> state" where
  "init E fs =
     init_audio E
       \<lparr>heap = (\<lambda>a. Map.empty)(0 := initial_languages),
        heap_next = 1,
        self = \<lparr>supported_languages = 0,
                hinglish_keywords = map ustr keyword_names,
                current_language = ustr ''en'',
                slow_speech = False,
                audio_initialized = False\<rparr>,
        files = fs,
        calls = []\<rparr>"

definition table :: "state \<Rightarrow> dict" where
  "table st = heap st (supported_languages (self st))"

definition dict_contains :: "dict \<Rightarrow> ustring \<Rightarrow> bool" where
  "dict_contains d k \<longleftrightarrow> d k \<noteq> None"

definition record_call :: "event \<Rightarrow> state \<Rightarrow> state" where
  "record_call ev st = st\<lparr>calls := calls st @ [ev]\<rparr>"

section \<open>The methods\<close>

text \<open>\<open>self.supported_languages.copy()\<close> allocates a new dict with the same items.\<close>

definition get_supported_languages :: "state \<Rightarrow> addr \<times> state" where
  "get_supported_languages st =
     (let a = heap_next st
      in (a, st\<lparr>heap := (heap st)(a := table st), heap_next := Suc a\<rparr>))"

text \<open>What a caller can do with a dict it holds: any in-place change of that object.\<close>

definition mutate_dict :: "addr \<Rightarrow> (dict \<Rightarrow> dict) \<Rightarrow> state \<Rightarrow> state" where
  "mutate_dict a f st = st\<lparr>heap := (heap st)(a := f (heap st a))\<rparr>"

definition set_language :: "ustring \<Rightarrow> state \<Rightarrow> bool \<times> state" where
  "set_language language_code st =
     (if dict_contains (table st) language_code
      then (True, st\<lparr>self := (self st)\<lparr>current_language := language_code\<rparr>\<rparr>)
      else (False, st))"

definition set_speed :: "bool \<Rightarrow> state \<Rightarrow> state" where
  "set_speed slow st = st\<lparr>self := (self st)\<lparr>slow_speech := slow\<rparr>\<rparr>"

text \<open>
  \<open>lang = language or self.current_language\<close>: \<open>None\<close> and the empty string are both
  false. \<open>speed = slow if slow is not None else self.slow_speech\<close>.
\<close>

definition lang_or_current :: "ustring option \<Rightarrow> state \<Rightarrow> ustring" where
  "lang_or_current language st =
     (case language of
        None \<Rightarrow> current_language (self st)
      | Some l \<Rightarrow> if l = [] then current_language (self st) else l)"

definition speed_or_current :: "bool option \<Rightarrow> state \<Rightarrow> bool" where
  "speed_or_current slow st = (case slow of None \<Rightarrow> slow_speech (self st) | Some b \<Rightarrow> b)"

text \<open>
  \<open>while pygame.mixer.music.get_busy(): time.sleep(0.1)\<close>. The loop ends when a poll
  answers false or raises; when every poll answers true it never ends, which is \<open>None\<close>.
\<close>

partial_function (option) wait_while_busy :: "(nat \<Rightarrow> exn + bool) \<Rightarrow> nat \<Rightarrow> (exn + unit) option"
where
  "wait_while_busy busy k =
     (case busy k of
        Inl e \<Rightarrow> Some (Inl e)
      | Inr b \<Rightarrow> if b then wait_while_busy busy (Suc k) else Some (Inr ()))"

text \<open>The first \<open>try\<close> block of \<open>_play_audio_file\<close>.\<close>

definition play_music :: "env \<Rightarrow> path \<Rightarrow> state \<Rightarrow> ((exn + unit) \<times> state) option" where
  "play_music E filename st =
     (if filename \<notin> files st then Some (Inr (), st)
      else
        let st1 = record_call (MusicLoad filename) st in
        case music_load E filename of
          Some e \<Rightarrow> Some (Inl e, st1)
        | None \<Rightarrow>
            let st2 = record_call MusicPlay st1 in
            (case music_play E of
               Some e \<Rightarrow> Some (Inl e, st2)
             | None \<Rightarrow>
                 (case wait_while_busy (music_get_busy E) 0 of
                    None \<Rightarrow> None
                  | Some r \<Rightarrow> Some (r, st2))))"

text \<open>The \<open>try\<close> block inside its handler: the alternative through \<open>pygame.mixer.Sound\<close>.\<close>

definition play_sound :: "env \<Rightarrow> path \<Rightarrow> state \<Rightarrow> ((exn + unit) \<times> state) option" where
  "play_sound E filename st =
     (let st1 = record_call (SoundNew filename) st in
      case sound_new E filename of
        Some e \<Rightarrow> Some (Inl e, st1)
      | None \<Rightarrow>
          let st2 = record_call SoundPlay st1 in
          (case sound_play E of
             Some e \<Rightarrow> Some (Inl e, st2)
           | None \<Rightarrow>
               (case wait_while_busy (mixer_get_busy E) 0 of
                  None \<Rightarrow> None
                | Some r \<Rightarrow> Some (r, st2))))"

definition play_audio_file :: "env \<Rightarrow> path \<Rightarrow> state \<Rightarrow> ((exn + unit) \<times> state) option" where
  "play_audio_file E filename st =
     (if \<not> audio_initialized (self st) then Some (Inr (), st)
      else
        case play_music E filename st of
          None \<Rightarrow> None
        | Some (Inr u, st1) \<Rightarrow> Some (Inr (), st1)
        | Some (Inl e, st1) \<Rightarrow>
            (case play_sound E filename st1 of
               None \<Rightarrow> None
             | Some (Inr u, st2) \<Rightarrow> Some (Inr (), st2)
             | Some (Inl e2, st2) \<Rightarrow> Some (Inr (), st2)))"

text \<open>\<open>tts.save(filename)\<close>: the request to the service and the write of the file.\<close>

definition tts_save :: "env \<Rightarrow> ustring \<Rightarrow> ustring \<Rightarrow> bool \<Rightarrow> path \<Rightarrow> state \<Rightarrow> (exn + unit) \<times> state"
where
  "tts_save E text language slow filename st =
     (let st1 = record_call (GttsSave text language slow filename) st in
      case gtts_save E text language slow filename of
        Written \<Rightarrow> (Inr (), st1\<lparr>files := insert filename (files st1)\<rparr>)
      | SaveFailed e left \<Rightarrow>
          (Inl e, if left then st1\<lparr>files := insert filename (files st1)\<rparr> else st1))"

text \<open>The body of the \<open>try\<close> of \<open>_generate_audio\<close>, then the method with its handler.\<close>

definition generate_audio_body ::
  "env \<Rightarrow> ustring \<Rightarrow> ustring \<Rightarrow> bool \<Rightarrow> path \<Rightarrow> state \<Rightarrow> (exn + bool) \<times> state" where
  "generate_audio_body E text language slow filename st =
     (if \<not> dict_contains (table st) language then (Inr False, st)
      else
        let st1 = record_call (GttsNew text language slow) st in
        case gtts_new E text language slow of
          Some e \<Rightarrow> (Inl e, st1)
        | None \<Rightarrow>
            (case tts_save E text language slow filename st1 of
               (Inl e, st2) \<Rightarrow> (Inl e, st2)
             | (Inr u, st2) \<Rightarrow> (Inr True, st2)))"

definition generate_audio ::
  "env \<Rightarrow> ustring \<Rightarrow> ustring \<Rightarrow> bool \<Rightarrow> path \<Rightarrow> state \<Rightarrow> (exn + bool) \<times> state" where
  "generate_audio E text language slow filename st =
     (case generate_audio_body E text language slow filename st of
        (Inl e, st1) \<Rightarrow> (Inr False, st1)
      | (Inr b, st1) \<Rightarrow> (Inr b, st1))"

text \<open>The inner \<open>try\<close> of \<open>_generate_and_play\<close> and its \<open>finally\<close>.\<close>

definition save_and_play ::
  "env \<Rightarrow> ustring \<Rightarrow> ustring \<Rightarrow> bool \<Rightarrow> path \<Rightarrow> state \<Rightarrow> ((exn + unit) \<times> state) option" where
  "save_and_play E text language slow tmp_filename st =
     (case tts_save E text language slow tmp_filename st of
        (Inl e, st1) \<Rightarrow> Some (Inl e, st1)
      | (Inr u, st1) \<Rightarrow>
          if audio_initialized (self st1) then play_audio_file E tmp_filename st1
          else Some (Inr (), st1))"

definition cleanup :: "env \<Rightarrow> path \<Rightarrow> state \<Rightarrow> state" where
  "cleanup E tmp_filename st =
     (if tmp_filename \<in> files st then
        let st1 = record_call (Unlink tmp_filename) st in
        case os_unlink E tmp_filename of
          None \<Rightarrow> st1\<lparr>files := files st1 - {tmp_filename}\<rparr>
        | Some cleanup_error \<Rightarrow> st1
      else st)"

definition generate_and_play_body ::
  "env \<Rightarrow> ustring \<Rightarrow> ustring \<Rightarrow> bool \<Rightarrow> state \<Rightarrow> ((exn + bool) \<times> state) option" where
  "generate_and_play_body E text language slow st =
     (if \<not> dict_contains (table st) language then Some (Inr False, st)
      else
        let st1 = record_call (GttsNew text language slow) st in
        case gtts_new E text language slow of
          Some e \<Rightarrow> Some (Inl e, st1)
        | None \<Rightarrow>
            (case named_temporary_file E of
               Inl e \<Rightarrow> Some (Inl e, st1)
             | Inr tmp_filename \<Rightarrow>
                 let st2 = record_call (TempFile tmp_filename)
                             (st1\<lparr>files := insert tmp_filename (files st1)\<rparr>) in
                 (case file_close E of
                    Some e \<Rightarrow> Some (Inl e, st2)
                  | None \<Rightarrow>
                      (case save_and_play E text language slow tmp_filename st2 of
                         None \<Rightarrow> None
                       | Some (Inl e, st3) \<Rightarrow> Some (Inl e, cleanup E tmp_filename st3)
                       | Some (Inr u, st3) \<Rightarrow> Some (Inr True, cleanup E tmp_filename st3)))))"

definition generate_and_play ::
  "env \<Rightarrow> ustring \<Rightarrow> ustring \<Rightarrow> bool \<Rightarrow> state \<Rightarrow> ((exn + bool) \<times> state) option" where
  "generate_and_play E text language slow st =
     (case generate_and_play_body E text language slow st of
        None \<Rightarrow> None
      | Some (Inl e, st1) \<Rightarrow> Some (Inr False, st1)
      | Some (Inr b, st1) \<Rightarrow> Some (Inr b, st1))"

definition speak ::
  "env \<Rightarrow> ustring \<Rightarrow> ustring option \<Rightarrow> bool option \<Rightarrow> state \<Rightarrow> ((exn + bool) \<times> state) option"
where
  "speak E text language slow st =
     (let lang = lang_or_current language st;
          speed = speed_or_current slow st
      in generate_and_play E text lang speed st)"

definition save ::
  "env \<Rightarrow> ustring \<Rightarrow> path \<Rightarrow> ustring option \<Rightarrow> bool option \<Rightarrow> state \<Rightarrow> (exn + bool) \<times> state"
where
  "save E text filename language slow st =
     (let lang = lang_or_current language st;
          speed = speed_or_current slow st
      in generate_audio E text lang speed filename st)"

definition speak_and_save ::
  "env \<Rightarrow> ustring \<Rightarrow> path \<Rightarrow> ustring option \<Rightarrow> bool option \<Rightarrow> state
     \<Rightarrow> ((exn + bool) \<times> state) option" where
  "speak_and_save E text filename language slow st =
     (let lang = lang_or_current language st;
          speed = speed_or_current slow st
      in case generate_audio E text lang speed filename st of
           (Inl e, st1) \<Rightarrow> Some (Inl e, st1)
         | (Inr ok, st1) \<Rightarrow>
             if ok then
               (if audio_initialized (self st1) then
                  (case play_audio_file E filename st1 of
                     None \<Rightarrow> None
                   | Some (Inl e, st2) \<Rightarrow> Some (Inl e, st2)
                   | Some (Inr u, st2) \<Rightarrow> Some (Inr True, st2))
                else Some (Inr True, st1))
             else Some (Inr False, st1))"

subsection \<open>Language detection\<close>

fun count_keywords :: "ustring list \<Rightarrow> ustring list \<Rightarrow> int \<Rightarrow> int" where
  "count_keywords keywords [] hinglish_count = hinglish_count"
| "count_keywords keywords (word # words) hinglish_count =
     count_keywords keywords words
       (if word \<in> set keywords then hinglish_count + 1 else hinglish_count)"

definition detect_hinglish :: "env \<Rightarrow> ustring \<Rightarrow> state \<Rightarrow> exn + bool" where
  "detect_hinglish E text st =
     (let text_lower = str_lower E text;
          words = str_split text_lower;
          hinglish_count = count_keywords (hinglish_keywords (self st)) words 0
      in if int (length words) > 0 then
           (case int_truediv hinglish_count (int (length words)) of
              Inl e \<Rightarrow> Inl e
            | Inr ratio \<Rightarrow> if float_gt ratio (float_literal 2 10) then Inr True else Inr False)
         else Inr False)"

definition auto_detect_language :: "env \<Rightarrow> ustring \<Rightarrow> state \<Rightarrow> exn + ustring" where
  "auto_detect_language E text st =
     (let devanagari_count = sum_list (map (\<lambda>char. 1) (filter devanagari text))
      in if int_gt_float devanagari_count
              (float_mul (float_of_int (int (length text))) (float_literal 3 10))
         then Inr (ustr ''hi'')
         else
           (case detect_hinglish E text st of
              Inl e \<Rightarrow> Inl e
            | Inr hinglish \<Rightarrow> if hinglish then Inr (ustr ''hi'') else Inr (current_language (self st))))"

definition speak_hinglish ::
  "env \<Rightarrow> ustring \<Rightarrow> bool \<Rightarrow> bool \<Rightarrow> state \<Rightarrow> ((exn + bool) \<times> state) option" where
  "speak_hinglish E text slow auto_detect st =
     (if auto_detect then
        (case auto_detect_language E text st of
           Inl e \<Rightarrow> Some (Inl e, st)
         | Inr lang \<Rightarrow> speak E text (Some lang) (Some slow) st)
      else speak E text (Some (ustr ''hi'')) (Some slow) st)"


section \<open>Sequences of calls\<close>

text \<open>
  What a client can do with the object: call its methods, one after the other, each
  call meeting its own answers of the collaborators.
\<close>

datatype call =
    SetLanguage ustring
  | SetSpeed bool
  | Speak ustring "ustring option" "bool option"
  | Save ustring path "ustring option" "bool option"
  | SpeakAndSave ustring path "ustring option" "bool option"
  | SpeakHinglish ustring bool bool
  | GetSupportedLanguages

datatype returned = Bool bool | NoValue | DictRef addr | Raised exn

definition returned_bool :: "exn + bool \<Rightarrow> returned" where
  "returned_bool r = (case r of Inl e \<Rightarrow> Raised e | Inr b \<Rightarrow> Bool b)"

fun do_call :: "env \<Rightarrow> call \<Rightarrow> state \<Rightarrow> (returned \<times> state) option" where
  "do_call E (SetLanguage c) st = (case set_language c st of (b, st1) \<Rightarrow> Some (Bool b, st1))"
| "do_call E (SetSpeed b) st = Some (NoValue, set_speed b st)"
| "do_call E (Speak text language slow) st =
     (case speak E text language slow st of
        None \<Rightarrow> None
      | Some (r, st1) \<Rightarrow> Some (returned_bool r, st1))"
| "do_call E (Save text filename language slow) st =
     (case save E text filename language slow st of (r, st1) \<Rightarrow> Some (returned_bool r, st1))"
| "do_call E (SpeakAndSave text filename language slow) st =
     (case speak_and_save E text filename language slow st of
        None \<Rightarrow> None
      | Some (r, st1) \<Rightarrow> Some (returned_bool r, st1))"
| "do_call E (SpeakHinglish text slow auto_detect) st =
     (case speak_hinglish E text slow auto_detect st of
        None \<Rightarrow> None
      | Some (r, st1) \<Rightarrow> Some (returned_bool r, st1))"
| "do_call E GetSupportedLanguages st =
     (case get_supported_languages st of (a, st1) \<Rightarrow> Some (DictRef a, st1))"

fun run :: "(env \<times> call) list \<Rightarrow> state \<Rightarrow> (returned list \<times> state) option" where
  "run [] st = Some ([], st)"
| "run ((E, c) # cs) st =
     (case do_call E c st of
        None \<Rightarrow> None
      | Some (r, st1) \<Rightarrow>
          (case run cs st1 of
             None \<Rightarrow> None
           | Some (rs, st2) \<Rightarrow> Some (r # rs, st2)))"

section \<open>Observations and sample inputs\<close>

text \<open>The language codes that reached gTTS, read off the log.\<close>

fun synth_languages :: "event list \<Rightarrow> ustring list" where
  "synth_languages [] = []"
| "synth_languages (GttsNew text language slow # evs) = language # synth_languages evs"
| "synth_languages (GttsSave text language slow filename # evs) = language # synth_languages evs"
| "synth_languages (ev # evs) = synth_languages evs"

text \<open>The object reaches its table; the table is below the next free address.\<close>

definition wf_state :: "state \<Rightarrow> bool" where
  "wf_state st \<longleftrightarrow> supported_languages (self st) < heap_next st"

text \<open>
  What \<open>_generate_and_play\<close> needs after the gTTS object exists: the temporary file is
  created and closed, and \<open>tts.save\<close> writes it.
\<close>

definition temp_ok :: "env \<Rightarrow> ustring \<Rightarrow> ustring \<Rightarrow> bool \<Rightarrow> bool" where
  "temp_ok E t l s =
     (case named_temporary_file E of
        Inl e \<Rightarrow> False
      | Inr tmp \<Rightarrow> file_close E = None \<and> gtts_save E t l s tmp = Written)"

text \<open>
  An environment in which every collaborator succeeds: the mixer starts, gTTS answers,
  the temporary file is \<open>/tmp/tmp0.mp3\<close>, and a playback is over at the second poll.
\<close>

definition env_ok :: env where
  "env_ok =
     \<lparr>unicode_lower = (\<lambda>t. t),
      mixer_init = None,
      gtts_new = (\<lambda>text language slow. None),
      gtts_save = (\<lambda>text language slow filename. Written),
      named_temporary_file = Inr (ustr ''/tmp/tmp0.mp3''),
      file_close = None,
      os_unlink = (\<lambda>p. None),
      music_load = (\<lambda>p. None),
      music_play = None,
      music_get_busy = (\<lambda>k. Inr (k < 1)),
      sound_new = (\<lambda>p. None),
      sound_play = None,
      mixer_get_busy = (\<lambda>k. Inr (k < 1))\<rparr>"

text \<open>The same, but pygame fails to load the file both ways.\<close>

definition env_no_playback :: env where
  "env_no_playback =
     env_ok\<lparr>music_load := (\<lambda>p. Some PygameError), sound_new := (\<lambda>p. Some PygameError)\<rparr>"

text \<open>The same as \<open>env_ok\<close>, but the temporary file cannot be deleted.\<close>

definition env_no_unlink :: env where
  "env_no_unlink = env_ok\<lparr>os_unlink := (\<lambda>p. Some OSError)\<rparr>"

text \<open>
  A caller that changes a dict it holds changes the store at one address; \<open>lift_mutation\<close>
  applies that change to the state an operation returns. \<open>supported_codes\<close> are the keys
  of the table.
\<close>

definition lift_mutation ::
  "addr \<Rightarrow> (dict \<Rightarrow> dict) \<Rightarrow> ('r \<times> state) option \<Rightarrow> ('r \<times> state) option" where
  "lift_mutation a f = map_option (\<lambda>(r, st). (r, mutate_dict a f st))"

definition supported_codes :: "state \<Rightarrow> ustring set" where
  "supported_codes st = {l. dict_contains (table st) l}"




text \<open>
  \<open>namaste duniya\<close> written in Devanagari (13 code points, 12 of them in the block), and
  a text of 10 code points of which exactly 3 are Devanagari.
\<close>

definition namaste_duniya :: ustring where
  "namaste_duniya =
     [0x0928, 0x092E, 0x0938, 0x094D, 0x0924, 0x0947, 0x20,
      0x0926, 0x0941, 0x0928, 0x093F, 0x092F, 0x093E]"

definition three_of_ten :: ustring where
  "three_of_ten = [0x0928, 0x092E, 0x0938] @ ustr ''abcdefg''"


section \<open>The float operations against exact arithmetic\<close>

text \<open>
  The rounding of \<open>round_ratio\<close> is characterised first: the scaled quotient lies in
  \<open>[2 ^ 52, 2 ^ 53)\<close> and the mantissa is an integer nearest to it. From there the two
  comparisons of the source are reduced to comparisons of integers, for counts and
  lengths below \<open>2 ^ 50\<close>.
\<close>

lemma pow_nat_quot: "(2::real) ^ nat e / 2 ^ nat (- e) = 2 powi e"
proof (cases "0 \<le> e")
  case True
  then show ?thesis by (simp add: power_int_def)
next
  case False
  then have "nat e = 0" by simp
  then show ?thesis using False by (simp add: power_int_def power_one_over inverse_eq_divide)
qed

lemma scaled_ratio:
  assumes "0 < b"
  shows "real_of_int (a * 2 ^ nat (- e)) / real_of_int (b * 2 ^ nat e) = of_int a / of_int b / 2 powi e"
proof -
  have "real_of_int (a * 2 ^ nat (- e)) / real_of_int (b * 2 ^ nat e)
        = (of_int a / of_int b) / ((2::real) ^ nat e / 2 ^ nat (- e))"
    by simp
  then show ?thesis by (simp only: pow_nat_quot)
qed

lemma bitlen_real_bounds:
  assumes "0 < a"
  shows "2 powi (bitlen a - 1) \<le> real_of_int a" "real_of_int a < 2 powi (bitlen a)"
proof -
  from bitlen_bounds[OF assms] have 1: "2 ^ nat (bitlen a - 1) \<le> a" and 2: "a < 2 ^ nat (bitlen a)"
    by auto
  have p: "1 \<le> bitlen a" using assms by (auto simp: bitlen_alt_def)
  have "real_of_int (2 ^ nat (bitlen a - 1)) \<le> real_of_int a" using 1 of_int_le_iff by blast
  then show "2 powi (bitlen a - 1) \<le> real_of_int a" using p by (simp add: power_int_def)
  have "real_of_int a < real_of_int (2 ^ nat (bitlen a))" using 2 of_int_less_iff by blast
  then show "real_of_int a < 2 powi (bitlen a)" using p by (simp add: power_int_def)
qed

lemma prescaled_range:
  assumes "0 < a" "0 < b"
  defines "e0 \<equiv> bitlen a - bitlen b - 53"
  shows "2 ^ 52 < real_of_int a / real_of_int b / 2 powi e0"
    and "real_of_int a / real_of_int b / 2 powi e0 < 2 ^ 54"
proof -
  let ?la = "bitlen a" and ?lb = "bitlen b"
  have ra: "0 < real_of_int a" and rb: "0 < real_of_int b" using assms by simp_all
  note A = bitlen_real_bounds[OF assms(1)]
  note B = bitlen_real_bounds[OF assms(2)]
  have pos: "\<And>k. (0::real) < 2 powi k" by simp
  have "2 powi (?la - 1) * real_of_int b < real_of_int a * 2 powi ?lb"
    using A(1) B(2) ra rb pos[of "?la - 1"] 
    by (smt (verit) mult_le_less_imp_less mult.commute)
  then have "2 powi (?la - 1) / 2 powi ?lb < real_of_int a / real_of_int b"
    using rb pos[of ?lb] by (simp add: field_simps)
  moreover have "2 powi (?la - 1) / 2 powi ?lb = (2::real) ^ 52 * 2 powi e0"
  proof -
    have "(2::real) powi (?la - 1) / 2 powi ?lb = (2::real) powi (?la - 1 - ?lb)"
      by (simp add: power_int_diff)
    also have "?la - 1 - ?lb = 52 + e0" by (simp add: e0_def)
    also have "(2::real) powi (52 + e0) = 2 ^ 52 * 2 powi e0"
      by (subst power_int_add) simp_all
    finally show ?thesis .
  qed
  ultimately have "2 ^ 52 * 2 powi e0 < real_of_int a / real_of_int b" by simp
  then show "2 ^ 52 < real_of_int a / real_of_int b / 2 powi e0"
    using pos[of e0] by (subst pos_less_divide_eq) simp_all
  have "real_of_int a * 2 powi (?lb - 1) < 2 powi ?la * real_of_int b"
    using A(2) B(1) ra rb pos[of "?lb - 1"]
    by (smt (verit) mult_less_le_imp_less mult.commute)
  then have "real_of_int a / real_of_int b < 2 powi ?la / 2 powi (?lb - 1)"
    using rb pos[of "?lb - 1"] by (simp add: field_simps)
  moreover have "2 powi ?la / 2 powi (?lb - 1) = (2::real) ^ 54 * 2 powi e0"
  proof -
    have "(2::real) powi ?la / 2 powi (?lb - 1) = (2::real) powi (?la - (?lb - 1))"
      by (simp add: power_int_diff)
    also have "?la - (?lb - 1) = 54 + e0" by (simp add: e0_def)
    also have "(2::real) powi (54 + e0) = 2 ^ 54 * 2 powi e0"
      by (subst power_int_add) simp_all
    finally show ?thesis .
  qed
  ultimately have "real_of_int a / real_of_int b < 2 ^ 54 * 2 powi e0" by simp
  then show "real_of_int a / real_of_int b / 2 powi e0 < 2 ^ 54"
    using pos[of e0] by (subst pos_divide_less_eq) simp_all
qed


lemma round_ratio_core:
  assumes a: "0 < a" and b: "0 < b" and rr: "round_ratio a b = (m, e)"
  defines "s \<equiv> real_of_int a / real_of_int b / 2 powi e"
  shows "2 ^ 52 \<le> s" and "s < 2 ^ 53" and "\<bar>real_of_int m - s\<bar> \<le> 1 / 2"
    and "\<And>K::int. s \<le> of_int K \<Longrightarrow> m \<le> K"
    and "\<And>K::int. of_int K \<le> s \<Longrightarrow> K \<le> m"
    and "\<And>K::int. of_int K - 1 / 2 < s \<Longrightarrow> K \<le> m"
proof -
  define e0 where "e0 = bitlen a - bitlen b - 53"
  define t where "t = real_of_int a / real_of_int b / 2 powi e0"
  define e' where "e' = (if 2 ^ 53 * b * 2 ^ nat e0 \<le> a * 2 ^ nat (- e0) then e0 + 1 else e0)"
  define num where "num = a * 2 ^ nat (- e')"
  define den where "den = b * 2 ^ nat e'"
  define q where "q = num div den"
  define r where "r = num mod den"
  have rr': "round_ratio a b = (if 2 * r < den \<or> (2 * r = den \<and> even q) then q else q + 1, e')"
    using a by (simp add: round_ratio_def Let_def e'_def num_def den_def q_def r_def e0_def)
  have e_eq: "e = e'" using rr rr' by simp
  have e_def: "e = (if 2 ^ 53 * b * 2 ^ nat e0 \<le> a * 2 ^ nat (- e0) then e0 + 1 else e0)"
    using e_eq e'_def by simp
  have m_def: "m = (if 2 * r < den \<or> (2 * r = den \<and> even q) then q else q + 1)"
    using rr rr' by simp
  have t_range: "2 ^ 52 < t" "t < 2 ^ 54"
    using prescaled_range[OF a b] by (simp_all add: t_def e0_def)
  have den0: "0 < b * 2 ^ nat e0" using b by simp
  have test: "2 ^ 53 * b * 2 ^ nat e0 \<le> a * 2 ^ nat (- e0) \<longleftrightarrow> 2 ^ 53 \<le> t"
  proof -
    have "2 ^ 53 * b * 2 ^ nat e0 \<le> a * 2 ^ nat (- e0) \<longleftrightarrow>
          real_of_int (2 ^ 53 * (b * 2 ^ nat e0)) \<le> real_of_int (a * 2 ^ nat (- e0))"
      by (simp only: of_int_le_iff mult.assoc)
    also have "\<dots> \<longleftrightarrow> 2 ^ 53 \<le> real_of_int (a * 2 ^ nat (- e0)) / real_of_int (b * 2 ^ nat e0)"
      using b by (subst pos_le_divide_eq) simp_all
    also have "\<dots> \<longleftrightarrow> 2 ^ 53 \<le> t"
      by (simp only: scaled_ratio[OF b] t_def)
    finally show ?thesis .
  qed
  have s_t: "s = (if 2 ^ 53 \<le> t then t / 2 else t)"
  proof (cases "2 ^ 53 \<le> t")
    case True
    then have "e = e0 + 1" using e_def test by simp
    then have "(2::real) powi e = 2 powi e0 * 2" by (simp add: power_int_add)
    then show ?thesis using True by (simp add: s_def t_def)
  next
    case False
    then have "e = e0" using e_def test by simp
    then show ?thesis using False by (simp add: s_def t_def)
  qed
  show lo: "2 ^ 52 \<le> s" using t_range s_t by (auto split: if_splits)
  show hi: "s < 2 ^ 53" using t_range s_t by (auto split: if_splits)
  have den_pos: "0 < den" using b by (simp add: den_def)
  have s_frac: "s = real_of_int num / real_of_int den"
    unfolding num_def den_def s_def e_eq by (rule scaled_ratio[OF b, symmetric])
  have q_floor: "q = \<lfloor>s\<rfloor>" by (simp add: q_def s_frac floor_divide_of_int_eq)
  have r_range: "0 \<le> r" "r < den" using den_pos by (simp_all add: r_def)
  have "num = q * den + r" by (simp add: q_def r_def)
  then have "real_of_int num = real_of_int q * real_of_int den + real_of_int r"
    by (metis of_int_add of_int_mult)
  then have s_q: "s = real_of_int q + real_of_int r / real_of_int den"
    using den_pos by (simp add: s_frac field_simps)
  have half: "real_of_int r / real_of_int den < 1 / 2 \<longleftrightarrow> 2 * r < den"
  proof -
    have "real_of_int r / real_of_int den < 1 / 2 \<longleftrightarrow> 2 * real_of_int r < real_of_int den"
      using den_pos by (simp add: field_simps)
    also have "\<dots> \<longleftrightarrow> real_of_int (2 * r) < real_of_int den" by simp
    also have "\<dots> \<longleftrightarrow> 2 * r < den" by (rule of_int_less_iff)
    finally show ?thesis .
  qed
  have half': "real_of_int r / real_of_int den = 1 / 2 \<longleftrightarrow> 2 * r = den"
  proof -
    have "real_of_int r / real_of_int den = 1 / 2 \<longleftrightarrow> 2 * real_of_int r = real_of_int den"
      using den_pos by (auto simp add: field_simps)
    also have "\<dots> \<longleftrightarrow> real_of_int (2 * r) = real_of_int den" by simp
    also have "\<dots> \<longleftrightarrow> 2 * r = den" by (rule of_int_eq_iff)
    finally show ?thesis .
  qed
  have f0: "0 \<le> real_of_int r / real_of_int den" using r_range den_pos by simp
  have f1: "real_of_int r / real_of_int den < 1" using r_range den_pos by simp
  show near: "\<bar>real_of_int m - s\<bar> \<le> 1 / 2"
  proof (cases "2 * r < den \<or> (2 * r = den \<and> even q)")
    case True
    then have "m = q" using m_def by simp
    moreover have "real_of_int r / real_of_int den \<le> 1 / 2" using True half half' by linarith
    ultimately show ?thesis using s_q f0 by simp
  next
    case False
    then have "m = q + 1" using m_def by simp
    moreover have "\<not> real_of_int r / real_of_int den < 1 / 2" using False half by blast
    ultimately show ?thesis using s_q f1 by simp
  qed
  show "m \<le> K" if "s \<le> of_int K" for K
  proof (cases "2 * r < den \<or> (2 * r = den \<and> even q)")
    case True
    then have "m = q" using m_def by simp
    then show ?thesis using that q_floor by (simp add: floor_le_iff le_floor_iff)
  next
    case False
    then have mq: "m = q + 1" using m_def by simp
    have "0 < r" using False den_pos by linarith
    then have "real_of_int q < s" using s_q den_pos by simp
    then have "real_of_int q < real_of_int K" using that by linarith
    then show ?thesis using mq by simp
  qed
  show "K \<le> m" if "of_int K \<le> s" for K
  proof -
    have "K \<le> q" using that q_floor by (simp add: le_floor_iff)
    moreover have "q \<le> m" using m_def by simp
    ultimately show ?thesis by simp
  qed
  show "K \<le> m" if "of_int K - 1 / 2 < s" for K
  proof -
    have "real_of_int K - 1 < real_of_int m" using that near by linarith
    then have "real_of_int (K - 1) < real_of_int m" by simp
    then have "K - 1 < m" by (simp only: of_int_less_iff)
    then show ?thesis by simp
  qed
qed


lemma dval_pair: "dval (m, e) = real_of_int m * 2 powi e"
  by (simp add: dval_def)

lemma round_ratio_zero: "a \<le> 0 \<Longrightarrow> round_ratio a b = (0, 0)"
  by (simp add: round_ratio_def)

lemma round_ratio_error:
  assumes a: "0 < a" and b: "0 < b"
  shows "\<bar>dval (round_ratio a b) - real_of_int a / real_of_int b\<bar>
           \<le> real_of_int a / real_of_int b / 2 ^ 53"
proof -
  obtain m e where rr: "round_ratio a b = (m, e)" by (cases "round_ratio a b")
  define x where "x = real_of_int a / real_of_int b"
  define p where "p = (2::real) powi e"
  have p: "0 < p" by (simp add: p_def)
  note core = round_ratio_core[OF a b rr, folded x_def p_def]
  have "\<bar>real_of_int m - x / p\<bar> * p \<le> 1 / 2 * p"
    using core(3) p by (intro mult_right_mono) simp_all
  moreover have "\<bar>real_of_int m - x / p\<bar> * p = \<bar>real_of_int m * p - x\<bar>"
  proof -
    have "\<bar>real_of_int m - x / p\<bar> * p = \<bar>(real_of_int m - x / p) * p\<bar>"
      using p by (simp add: abs_mult)
    also have "(real_of_int m - x / p) * p = real_of_int m * p - x"
      using p by (simp add: field_simps)
    finally show ?thesis .
  qed
  moreover have "p * 2 ^ 52 \<le> x" using core(1) p by (simp add: pos_le_divide_eq mult.commute)
  ultimately have "\<bar>real_of_int m * p - x\<bar> \<le> x / 2 ^ 53" by simp
  then show ?thesis by (simp add: rr dval_pair x_def p_def)
qed

lemma pow_shift:
  assumes "e \<le> E"
  shows "real_of_int (M * 2 ^ nat (E - e)) * 2 powi e = real_of_int M * 2 powi E"
proof -
  have "(2::real) powi E = 2 powi (E - e) * 2 powi e"
    by (subst power_int_add[symmetric]) simp_all
  moreover have "(2::real) powi (E - e) = 2 ^ nat (E - e)" using assms by (simp add: power_int_def)
  ultimately show ?thesis by simp
qed

lemma pow_small:
  assumes "E < e"
  shows "(2::real) powi E \<le> 2 powi e / 2"
proof -
  have "(2::real) powi E \<le> 2 powi (e - 1)" using assms by (intro power_int_increasing) simp_all
  also have "(2::real) powi (e - 1) = 2 powi e / 2" by (simp add: power_int_diff)
  finally show ?thesis .
qed

lemma round_ratio_le:
  assumes a: "0 < a" and b: "0 < b" and M: "M < 2 ^ 53"
    and le: "real_of_int a / real_of_int b \<le> real_of_int M * 2 powi E"
  shows "dval (round_ratio a b) \<le> real_of_int M * 2 powi E"
proof -
  obtain m e where rr: "round_ratio a b = (m, e)" by (cases "round_ratio a b")
  define x where "x = real_of_int a / real_of_int b"
  define p where "p = (2::real) powi e"
  have p: "0 < p" by (simp add: p_def)
  note core = round_ratio_core[OF a b rr, folded x_def p_def]
  have xp: "p * 2 ^ 52 \<le> x" using core(1) p by (simp add: pos_le_divide_eq mult.commute)
  show ?thesis
  proof (cases "e \<le> E")
    case True
    define K where "K = M * 2 ^ nat (E - e)"
    have "real_of_int K * p = real_of_int M * 2 powi E"
      unfolding K_def p_def by (rule pow_shift[OF True])
    then have "x \<le> real_of_int K * p" using le by (simp add: x_def)
    then have "x / p \<le> real_of_int K" using p by (simp add: pos_divide_le_eq)
    then have "m \<le> K" by (rule core(4))
    then have mk: "real_of_int m * p \<le> real_of_int K * p"
      using p by (intro mult_right_mono) simp_all
    have "dval (round_ratio a b) = real_of_int m * p" by (simp add: rr dval_pair p_def)
    then show ?thesis using mk \<open>real_of_int K * p = real_of_int M * 2 powi E\<close>
      by linarith
  next
    case False
    then have small: "(2::real) powi E \<le> p / 2" unfolding p_def by (intro pow_small) simp
    have "real_of_int M < real_of_int (2 ^ 53)" using M by (simp only: of_int_less_iff)
    then have Mlt: "real_of_int M < 2 ^ 53" by simp
    have xpos: "0 < x" using a b by (simp add: x_def)
    have Mpos: "0 < real_of_int M"
    proof (rule ccontr)
      assume "\<not> 0 < real_of_int M"
      then have "real_of_int M * 2 powi E \<le> 0" by (simp add: mult_nonpos_nonneg)
      then show False using le xpos by (simp add: x_def)
    qed
    have "real_of_int M * 2 powi E \<le> real_of_int M * (p / 2)"
      using small Mpos by (intro mult_left_mono) simp_all
    also have "\<dots> < 2 ^ 53 * (p / 2)"
      using Mlt p by (intro mult_strict_right_mono) simp_all
    finally have "real_of_int M * 2 powi E < 2 ^ 53 * (p / 2)" .
    then have False using xp le by (simp add: x_def)
    then show ?thesis ..
  qed
qed

lemma round_ratio_ge_near:
  assumes a: "0 < a" and b: "0 < b" and M: "M < 2 ^ 53"
    and ge: "real_of_int M * 2 powi E - real_of_int a / real_of_int b
               < real_of_int a / real_of_int b / 2 ^ 54"
  shows "real_of_int M * 2 powi E \<le> dval (round_ratio a b)"
proof -
  obtain m e where rr: "round_ratio a b = (m, e)" by (cases "round_ratio a b")
  define x where "x = real_of_int a / real_of_int b"
  define p where "p = (2::real) powi e"
  have p: "0 < p" by (simp add: p_def)
  note core = round_ratio_core[OF a b rr, folded x_def p_def]
  have dv: "dval (round_ratio a b) = real_of_int m * p" by (simp add: rr dval_pair p_def)
  show ?thesis
  proof (cases "e \<le> E")
    case True
    define K where "K = M * 2 ^ nat (E - e)"
    have Kp: "real_of_int K * p = real_of_int M * 2 powi E"
      unfolding K_def p_def by (rule pow_shift[OF True])
    have "x < 2 ^ 53 * p" using core(2) p by (simp add: pos_divide_less_eq)
    then have "x / 2 ^ 54 < p / 2" by simp
    then have "real_of_int K * p - x < 1 / 2 * p" using ge Kp by (simp add: x_def)
    then have "(real_of_int K - 1 / 2) * p < x" by (simp add: algebra_simps)
    then have "real_of_int K - 1 / 2 < x / p" using p by (simp add: pos_less_divide_eq)
    then have "K \<le> m" by (rule core(6))
    then have mk: "real_of_int K * p \<le> real_of_int m * p"
      using p by (intro mult_right_mono) simp_all
    then show ?thesis using dv Kp by linarith
  next
    case False
    then have small: "(2::real) powi E \<le> p / 2" unfolding p_def by (intro pow_small) simp
    have "real_of_int (2 ^ 52) \<le> x / p" using core(1) by simp
    then have "2 ^ 52 \<le> m" by (rule core(5))
    then have "real_of_int (2 ^ 52) \<le> real_of_int m" by (simp only: of_int_le_iff)
    then have m52: "(2::real) ^ 52 \<le> real_of_int m" by simp
    show ?thesis
    proof (cases "0 \<le> M")
      case True
      have "real_of_int M < real_of_int (2 ^ 53)" using M by (simp only: of_int_less_iff)
      then have Mlt: "real_of_int M \<le> 2 ^ 53" by simp
      have "real_of_int M * 2 powi E \<le> real_of_int M * (p / 2)"
        using small True by (intro mult_left_mono) simp_all
      also have "\<dots> \<le> 2 ^ 53 * (p / 2)"
        using Mlt p by (intro mult_right_mono) simp_all
      also have "\<dots> = 2 ^ 52 * p" by simp
      also have "\<dots> \<le> real_of_int m * p" using m52 p by (intro mult_right_mono) simp_all
      finally show ?thesis using dv by simp
    next
      case False
      then have "real_of_int M * 2 powi E \<le> 0"
        by (simp add: mult_nonpos_nonneg)
      moreover have "0 \<le> real_of_int m * p" using m52 p by simp
      ultimately show ?thesis using dv by simp
    qed
  qed
qed

lemma round_ratio_ge:
  assumes a: "0 < a" and b: "0 < b" and M: "M < 2 ^ 53"
    and ge: "real_of_int M * 2 powi E \<le> real_of_int a / real_of_int b"
  shows "real_of_int M * 2 powi E \<le> dval (round_ratio a b)"
proof -
  have "0 < real_of_int a / real_of_int b / 2 ^ 54" using a b by simp
  then show ?thesis using ge by (intro round_ratio_ge_near[OF a b M]) linarith
qed

lemma float_gt_dval: "float_gt x y \<longleftrightarrow> dval y < dval x"
proof -
  obtain mx ex where x: "x = (mx, ex)" by (cases x)
  obtain my ey where y: "y = (my, ey)" by (cases y)
  define d where "d = ex - ey"
  have q: "(2::real) ^ nat d = 2 powi d * 2 ^ nat (- d)"
    using pow_nat_quot[of d] by (simp add: field_simps)
  have "float_gt x y \<longleftrightarrow> my * 2 ^ nat (- d) < mx * 2 ^ nat d"
    by (simp add: float_gt_def x y d_def)
  also have "\<dots> \<longleftrightarrow> real_of_int (my * 2 ^ nat (- d)) < real_of_int (mx * 2 ^ nat d)"
    by (simp only: of_int_less_iff)
  also have "\<dots> \<longleftrightarrow> real_of_int my * 2 ^ nat (- d) < real_of_int mx * 2 powi d * 2 ^ nat (- d)"
    using q by simp
  also have "\<dots> \<longleftrightarrow> real_of_int my < real_of_int mx * 2 powi d"
    by simp
  also have "\<dots> \<longleftrightarrow> real_of_int my * 2 powi ey < real_of_int mx * 2 powi d * 2 powi ey"
    by simp
  also have "real_of_int mx * 2 powi d * 2 powi ey = real_of_int mx * 2 powi ex"
  proof -
    have "(2::real) powi d * 2 powi ey = 2 powi ex"
      unfolding d_def by (subst power_int_add[symmetric]) simp_all
    then show ?thesis by (simp add: mult.assoc)
  qed
  finally show ?thesis by (simp add: x y dval_pair)
qed

lemma int_gt_float_dval: "int_gt_float c y \<longleftrightarrow> dval y < real_of_int c"
proof -
  have "int_gt_float c y \<longleftrightarrow> float_gt (c, 0) y"
    by (simp add: int_gt_float_def float_gt_def)
  then show ?thesis by (simp add: float_gt_dval dval_pair)
qed

lemma float_of_int_exact:
  assumes "0 \<le> n" "n < 2 ^ 53"
  shows "dval (float_of_int n) = real_of_int n"
proof (cases "n = 0")
  case True
  then show ?thesis by (simp add: float_of_int_def round_ratio_zero dval_pair)
next
  case False
  then have n: "0 < n" using assms by simp
  have "dval (round_ratio n 1) \<le> real_of_int n * 2 powi 0"
    by (rule round_ratio_le[OF n _ assms(2)]) simp_all
  moreover have "real_of_int n * 2 powi 0 \<le> dval (round_ratio n 1)"
    by (rule round_ratio_ge[OF n _ assms(2)]) simp_all
  ultimately show ?thesis by (simp add: float_of_int_def)
qed

lemma round_ratio_mantissa_pos:
  assumes "0 < a" "0 < b"
  shows "0 < fst (round_ratio a b)"
proof -
  obtain m e where rr: "round_ratio a b = (m, e)" by (cases "round_ratio a b")
  have "real_of_int (2 ^ 52) \<le> real_of_int a / real_of_int b / 2 powi e"
    using round_ratio_core(1)[OF assms rr] by simp
  then have "2 ^ 52 \<le> m" by (rule round_ratio_core(5)[OF assms rr])
  then show ?thesis by (simp add: rr)
qed

lemma float_mul_ratio:
  "real_of_int (fst x * fst y * 2 ^ nat (snd x + snd y)) / real_of_int (2 ^ nat (- (snd x + snd y)))
     = dval x * dval y"
proof -
  have "real_of_int (fst x * fst y * 2 ^ nat (snd x + snd y)) / real_of_int (2 ^ nat (- (snd x + snd y)))
          = real_of_int (fst x * fst y) * ((2::real) ^ nat (snd x + snd y) / 2 ^ nat (- (snd x + snd y)))"
    by simp
  also have "\<dots> = real_of_int (fst x * fst y) * 2 powi (snd x + snd y)"
    by (simp only: pow_nat_quot)
  also have "\<dots> = dval x * dval y"
    by (simp add: dval_def power_int_add)
  finally show ?thesis .
qed

lemma float_mul_error:
  assumes "0 < fst x" "0 < fst y"
  shows "\<bar>dval (float_mul x y) - dval x * dval y\<bar> \<le> dval x * dval y / 2 ^ 53"
proof -
  have a: "0 < fst x * fst y * 2 ^ nat (snd x + snd y)" using assms by simp
  have b: "(0::int) < 2 ^ nat (- (snd x + snd y))" by simp
  show ?thesis
    using round_ratio_error[OF a b] unfolding float_mul_ratio float_mul_def .
qed

lemma float_mul_ge_near:
  assumes "0 < fst x" "0 < fst y" "M < 2 ^ 53"
    "real_of_int M * 2 powi E - dval x * dval y < dval x * dval y / 2 ^ 54"
  shows "real_of_int M * 2 powi E \<le> dval (float_mul x y)"
proof -
  have a: "0 < fst x * fst y * 2 ^ nat (snd x + snd y)" using assms by simp
  have b: "(0::int) < 2 ^ nat (- (snd x + snd y))" by simp
  show ?thesis
    unfolding float_mul_def
    by (rule round_ratio_ge_near[OF a b assms(3)]) (simp only: float_mul_ratio assms(4))
qed

lemma literal_02: "float_literal 2 10 = (7205759403792794, - 55)"
  unfolding float_literal_def by code_simp

lemma literal_03: "float_literal 3 10 = (5404319552844595, - 54)"
  unfolding float_literal_def by code_simp

lemma dval_02: "dval (float_literal 2 10) = 7205759403792794 / 2 ^ 55"
  by (simp add: literal_02 dval_pair power_int_minus field_simps)

lemma dval_03: "dval (float_literal 3 10) = 5404319552844595 / 2 ^ 54"
  by (simp add: literal_03 dval_pair power_int_minus field_simps)

lemma hinglish_threshold:
  assumes c: "0 \<le> c" and n: "0 < n" "n < 2 ^ 50"
  shows "float_gt (round_ratio c n) (float_literal 2 10) \<longleftrightarrow> n < 5 * c"
proof (cases "n < 5 * c")
  case True
  then have cpos: "0 < c" using n by simp
  define x where "x = real_of_int c / real_of_int n"
  define u where "u = 1 / (5 * real_of_int n)"
  have rn: "0 < real_of_int n" using n by simp
  have "real_of_int n < real_of_int (2 ^ 50)" using n(2) by (simp only: of_int_less_iff)
  then have rn2: "real_of_int n < 2 ^ 50" by simp
  have "real_of_int (n + 1) \<le> real_of_int (5 * c)" using True by simp
  then have "real_of_int n + 1 \<le> 5 * real_of_int c" by simp
  then have "(real_of_int n + 1) / (5 * real_of_int n) \<le> 5 * real_of_int c / (5 * real_of_int n)"
    using rn by (intro divide_right_mono) simp_all
  moreover have "(real_of_int n + 1) / (5 * real_of_int n) = 1 / 5 + u"
    using rn by (simp add: u_def add_divide_distrib)
  moreover have "5 * real_of_int c / (5 * real_of_int n) = x" by (simp add: x_def)
  ultimately have x_lo: "1 / 5 + u \<le> x" by simp
  have "1 / (5 * 2 ^ 50) < 1 / (5 * real_of_int n)"
    using rn rn2 by (intro divide_strict_left_mono) simp_all
  then have u_lo: "1 / (5 * 2 ^ 50) < u" by (simp add: u_def)
  have "\<bar>dval (round_ratio c n) - x\<bar> \<le> x / 2 ^ 53"
    unfolding x_def by (rule round_ratio_error[OF cpos n(1)])
  then have "x - x / 2 ^ 53 \<le> dval (round_ratio c n)" by linarith
  then have "7205759403792794 / 2 ^ 55 < dval (round_ratio c n)"
    using x_lo u_lo by simp
  then show ?thesis using True by (simp add: float_gt_dval dval_02)
next
  case False
  have "dval (round_ratio c n) \<le> real_of_int 7205759403792794 * 2 powi (- 55)"
  proof (cases "c = 0")
    case True
    then show ?thesis by (simp add: round_ratio_zero dval_pair)
  next
    case False
    then have cpos: "0 < c" using c by simp
    have rn: "0 < real_of_int n" using n by simp
    have "real_of_int (5 * c) \<le> real_of_int n" using \<open>\<not> n < 5 * c\<close> by simp
    then have "5 * real_of_int c \<le> real_of_int n" by simp
    then have "real_of_int c / real_of_int n \<le> 1 / 5" using rn by (simp add: field_simps)
    also have "(1::real) / 5 \<le> real_of_int 7205759403792794 * 2 powi (- 55)"
      by (simp add: power_int_minus field_simps)
    finally show ?thesis
      by (intro round_ratio_le[OF cpos n(1)]) simp_all
  qed
  then have "\<not> dval (float_literal 2 10) < dval (round_ratio c n)"
    by (simp add: dval_02 power_int_minus field_simps)
  then show ?thesis using False by (simp add: float_gt_dval)
qed

lemma script_threshold:
  assumes c: "0 \<le> c" and n: "0 \<le> n" "n < 2 ^ 50"
  shows "int_gt_float c (float_mul (float_of_int n) (float_literal 3 10)) \<longleftrightarrow> 3 * n < 10 * c"
proof (cases "n = 0")
  case True
  then have "float_mul (float_of_int n) (float_literal 3 10) = (0, 0)"
    by (simp add: float_of_int_def round_ratio_zero float_mul_def)
  then show ?thesis using True c by (simp add: int_gt_float_dval dval_pair)
next
  case False
  then have npos: "0 < n" using n by simp
  define y where "y = dval (float_mul (float_of_int n) (float_literal 3 10))"
  define P where "P = real_of_int n * (5404319552844595 / 2 ^ 54)"
  have n53: "n < 2 ^ 53" using n(2) by simp
  have exact: "dval (float_of_int n) = real_of_int n"
    by (rule float_of_int_exact[OF n(1) n53])
  have m1: "0 < fst (float_of_int n)"
    unfolding float_of_int_def by (rule round_ratio_mantissa_pos[OF npos]) simp
  have m2: "0 < fst (float_literal 3 10)" by (simp add: literal_03)
  have prod: "dval (float_of_int n) * dval (float_literal 3 10) = P"
    by (simp add: exact dval_03 P_def)
  have err: "\<bar>y - P\<bar> \<le> P / 2 ^ 53"
    using float_mul_error[OF m1 m2] unfolding prod y_def .
  have rn: "0 < real_of_int n" using npos by simp
  have "real_of_int n < real_of_int (2 ^ 50)" using n(2) by (simp only: of_int_less_iff)
  then have rn2: "real_of_int n < 2 ^ 50" by simp
  consider (gt) "3 * n < 10 * c" | (lt) "10 * c < 3 * n" | (eq) "10 * c = 3 * n" by linarith
  then have "y < real_of_int c \<longleftrightarrow> 3 * n < 10 * c"
  proof cases
    case gt
    then have "real_of_int (3 * n + 1) \<le> real_of_int (10 * c)" by simp
    then have "3 * real_of_int n + 1 \<le> 10 * real_of_int c" by simp
    moreover have "y \<le> P + P / 2 ^ 53" using err by linarith
    ultimately have "y < real_of_int c" using rn rn2 by (simp add: P_def)
    then show ?thesis using gt by simp
  next
    case lt
    then have "real_of_int (10 * c + 1) \<le> real_of_int (3 * n)" by simp
    then have "10 * real_of_int c + 1 \<le> 3 * real_of_int n" by simp
    moreover have "P - P / 2 ^ 53 \<le> y" using err by linarith
    ultimately have "real_of_int c < y" using rn rn2 by (simp add: P_def)
    then show ?thesis using lt by simp
  next
    case eq
    then have cpos: "0 < c" using npos by simp
    have c53: "c < 2 ^ 53" using eq n(2) by simp
    have "real_of_int (10 * c) = real_of_int (3 * n)" using eq by (simp only:)
    then have "10 * real_of_int c = 3 * real_of_int n" by simp
    then have "real_of_int c * 2 powi 0 - P < P / 2 ^ 54" using rn by (simp add: P_def)
    then have "real_of_int c * 2 powi 0 \<le> y"
      unfolding y_def by (intro float_mul_ge_near[OF m1 m2 c53]) (simp only: prod)
    then show ?thesis using eq by simp
  qed
  then show ?thesis by (simp add: int_gt_float_dval y_def)
qed


section \<open>Language detection\<close>

lemma count_keywords_filter:
  "count_keywords kws ws n = n + int (length (filter (\<lambda>w. w \<in> set kws) ws))"
  by (induction ws arbitrary: n) simp_all

lemma sum_ones: "sum_list (map (\<lambda>char. 1) xs) = int (length xs)"
  by (induction xs) simp_all

lemma detect_hinglish_int:
  assumes "length (str_split (str_lower E text)) < 2 ^ 50"
  shows "detect_hinglish E text st =
           Inr (length (str_split (str_lower E text))
                  < 5 * length (filter (\<lambda>w. w \<in> set (hinglish_keywords (self st)))
                                 (str_split (str_lower E text))))"
proof -
  define words where "words = str_split (str_lower E text)"
  define cnt where "cnt = length (filter (\<lambda>w. w \<in> set (hinglish_keywords (self st))) words)"
  show ?thesis
  proof (cases "words = []")
    case True
    then show ?thesis by (simp add: detect_hinglish_def Let_def words_def[symmetric])
  next
    case False
    then have n: "0 < int (length words)" by simp
    have n2: "int (length words) < 2 ^ 50" using assms by (simp add: words_def)
    have "float_gt (round_ratio (int cnt) (int (length words))) (float_literal 2 10)
            \<longleftrightarrow> int (length words) < 5 * int cnt"
      by (rule hinglish_threshold[OF _ n n2]) simp
    then show ?thesis using n
      by (simp add: detect_hinglish_def Let_def words_def[symmetric] count_keywords_filter
          cnt_def[symmetric] int_truediv_def)
  qed
qed

lemma detect_hinglish_total: "\<exists>b. detect_hinglish E text st = Inr b"
  by (auto simp add: detect_hinglish_def Let_def int_truediv_def)

lemma auto_detect_int:
  assumes "length text < 2 ^ 50"
  shows "auto_detect_language E text st =
           (if 3 * length text < 10 * length (filter devanagari text) then Inr (ustr ''hi'')
            else case detect_hinglish E text st of
                   Inl e \<Rightarrow> Inl e
                 | Inr hinglish \<Rightarrow>
                     if hinglish then Inr (ustr ''hi'') else Inr (current_language (self st)))"
proof -
  have n2: "int (length text) < 2 ^ 50" using assms by simp
  have "int_gt_float (int (length (filter devanagari text)))
          (float_mul (float_of_int (int (length text))) (float_literal 3 10))
        \<longleftrightarrow> 3 * int (length text) < 10 * int (length (filter devanagari text))"
    by (rule script_threshold[OF _ _ n2]) simp_all
  then show ?thesis
    by (simp add: auto_detect_language_def Let_def sum_ones)
qed

lemma round_ratio_nonneg:
  assumes "0 < b"
  shows "0 \<le> fst (round_ratio a b)"
proof (cases "0 < a")
  case True
  then show ?thesis using round_ratio_mantissa_pos[OF True assms] by simp
next
  case False
  then show ?thesis by (simp add: round_ratio_zero)
qed

lemma script_check_zero: "\<not> int_gt_float 0 (float_mul x y)"
proof -
  have "0 \<le> fst (float_mul x y)" unfolding float_mul_def by (rule round_ratio_nonneg) simp
  then have "0 \<le> dval (float_mul x y)" by (simp add: dval_def)
  then show ?thesis by (simp add: int_gt_float_dval)
qed

lemma isspace_not_devanagari: "isspace c \<Longrightarrow> \<not> devanagari c"
  by (auto simp add: isspace_def devanagari_def)

lemma isspace_lower: "isspace c \<Longrightarrow> ascii_lower c = c"
  by (auto simp add: isspace_def ascii_lower_def)

lemma split_from_spaces: "list_all isspace t \<Longrightarrow> split_from [] t = []"
  by (induction t) simp_all

lemma whitespace_only:
  assumes "list_all isspace text"
  shows "filter devanagari text = []" and "str_split (str_lower E text) = []"
proof -
  show "filter devanagari text = []"
    using assms by (induction "text") (simp_all add: isspace_not_devanagari)
  have "list_all plain_char text"
    using assms by (induction "text") (simp_all add: plain_char_def)
  moreover have "map ascii_lower text = text"
    using assms by (induction "text") (simp_all add: isspace_lower)
  ultimately show "str_split (str_lower E text) = []"
    using assms by (simp add: str_lower_def str_split_def split_from_spaces)
qed

lemma detection_whitespace:
  assumes "list_all isspace text"
  shows "detect_hinglish E text st = Inr False"
    and "auto_detect_language E text st = Inr (current_language (self st))"
proof -
  show dh: "detect_hinglish E text st = Inr False"
    by (simp add: detect_hinglish_def Let_def whitespace_only[OF assms])
  show "auto_detect_language E text st = Inr (current_language (self st))"
    by (simp add: auto_detect_language_def Let_def whitespace_only[OF assms] script_check_zero dh)
qed

text \<open>
  Claim C6. \<open>detect_hinglish\<close> and \<open>auto_detect_language\<close> return a value for every
  text and never raise; the division is never reached with zero words. On a text of
  whitespace only, the empty text included, the script test and \<open>detect_hinglish\<close>
  answer false and \<open>auto_detect_language\<close> returns the current language.
\<close>

theorem detection_never_fails:
  "(\<exists>b. detect_hinglish E text st = Inr b) \<and>
   (\<exists>l. auto_detect_language E text st = Inr l) \<and>
   (list_all isspace text \<longrightarrow>
      detect_hinglish E text st = Inr False \<and>
      auto_detect_language E text st = Inr (current_language (self st)))"
proof -
  obtain b where b: "detect_hinglish E text st = Inr b" using detect_hinglish_total by blast
  have "\<exists>l. auto_detect_language E text st = Inr l"
    by (simp add: auto_detect_language_def Let_def b)
  then show ?thesis using b detection_whitespace by blast
qed

text \<open>Claim C6 at two blanks and at the empty text, on a new object.\<close>

theorem detection_never_fails_witness:
  "list_all isspace (ustr ''  '') \<and>
   detect_hinglish env_ok (ustr ''  '') (init env_ok {}) = Inr False \<and>
   auto_detect_language env_ok (ustr ''  '') (init env_ok {}) =
     Inr (current_language (self (init env_ok {}))) \<and>
   detect_hinglish env_ok [] (init env_ok {}) = Inr False \<and>
   auto_detect_language env_ok [] (init env_ok {}) = Inr (ustr ''en'')"
proof -
  have sp: "list_all isspace (ustr ''  '')" by (simp add: ustr_def isspace_def)
  have en: "current_language (self (init env_ok {})) = ustr ''en''"
    by (simp add: init_def init_audio_def split: option.splits)
  show ?thesis
    using detection_never_fails[of env_ok "ustr ''  ''" "init env_ok {}"]
      detection_never_fails[of env_ok "[]" "init env_ok {}"] sp en
    by simp
qed

text \<open>
  Claim C1. \<open>auto_detect_language\<close> decides in this order: more than 30 percent of the
  characters in the Devanagari block gives \<open>hi\<close>, without looking at the words;
  otherwise \<open>detect_hinglish\<close> being true gives \<open>hi\<close>; otherwise the current language
  of the object is returned unchanged. Lengths are below \<open>2 ^ 50\<close> characters, where the float
  comparison of the source agrees with the exact one.
\<close>

theorem auto_detect_language_order:
  assumes "length text < 2 ^ 50"
  shows "auto_detect_language E text st =
           Inr (if 3 * length text < 10 * length (filter devanagari text) then ustr ''hi''
                else if detect_hinglish E text st = Inr True then ustr ''hi''
                else current_language (self st))"
proof -
  obtain b where b: "detect_hinglish E text st = Inr b" using detect_hinglish_total by blast
  show ?thesis by (simp add: auto_detect_int[OF assms] b)
qed

lemma namaste_facts:
  "length namaste_duniya = 13" "length (filter devanagari namaste_duniya) = 12"
  by (simp_all add: namaste_duniya_def devanagari_def)

text \<open>Claim C1 at \<open>namaste duniya\<close> in Devanagari, on a new object.\<close>

theorem auto_detect_language_order_witness:
  "length namaste_duniya < 2 ^ 50 \<and>
   auto_detect_language env_ok namaste_duniya (init env_ok {}) = Inr (ustr ''hi'')"
  using auto_detect_language_order[of namaste_duniya env_ok "init env_ok {}"]
  by (simp add: namaste_facts)

lemma three_of_ten_facts:
  "length three_of_ten = 10" "length (filter devanagari three_of_ten) = 3"
  "str_split (str_lower E three_of_ten) = [three_of_ten]"
  by (simp_all add: three_of_ten_def devanagari_def ustr_def str_lower_def plain_char_def
      ascii_lower_def str_split_def isspace_def)

lemma init_fields:
  "hinglish_keywords (self (init E fs)) = map ustr keyword_names"
  "current_language (self (init E fs)) = ustr ''en''"
  "slow_speech (self (init E fs)) = False"
  "audio_initialized (self (init E fs)) = (mixer_init E = None)"
  "supported_languages (self (init E fs)) = 0"
  "heap (init E fs) 0 = initial_languages"
  "heap_next (init E fs) = 1"
  "files (init E fs) = fs"
  "calls (init E fs) = []"
  by (simp_all add: init_def init_audio_def split: option.splits)

lemma three_of_ten_detect: "detect_hinglish E three_of_ten (init E fs) = Inr False"
  by (subst detect_hinglish_int)
     (simp_all add: three_of_ten_facts init_fields,
      simp add: three_of_ten_def keyword_names_def ustr_def)

text \<open>
  Claim C2, amended. When strictly more than 30 percent of the characters are Devanagari,
  \<open>auto_detect_language\<close> returns \<open>hi\<close> whatever the words and the keyword list are.
  At exactly 30 percent the script test is false: the result is \<open>hi\<close> when
  \<open>detect_hinglish\<close> is true and the current language otherwise.
\<close>

theorem devanagari_above_30_percent:
  assumes "length text < 2 ^ 50"
  shows "(3 * length text < 10 * length (filter devanagari text) \<longrightarrow>
            auto_detect_language E text st = Inr (ustr ''hi'')) \<and>
         (3 * length text = 10 * length (filter devanagari text) \<longrightarrow>
            auto_detect_language E text st =
              Inr (if detect_hinglish E text st = Inr True then ustr ''hi''
                   else current_language (self st)))"
proof -
  obtain b where b: "detect_hinglish E text st = Inr b" using detect_hinglish_total by blast
  show ?thesis by (simp add: auto_detect_int[OF assms] b)
qed

text \<open>
  Claim C2, amended, at \<open>namaste duniya\<close> in Devanagari (12 of 13 characters) and at a
  text with exactly 3 Devanagari characters of 10, both on a new object.
\<close>

theorem devanagari_above_30_percent_witness:
  "length namaste_duniya < 2 ^ 50 \<and>
   3 * length namaste_duniya < 10 * length (filter devanagari namaste_duniya) \<and>
   auto_detect_language env_no_playback namaste_duniya (init env_no_playback {}) = Inr (ustr ''hi'') \<and>
   length three_of_ten < 2 ^ 50 \<and>
   3 * length three_of_ten = 10 * length (filter devanagari three_of_ten) \<and>
   auto_detect_language env_no_playback three_of_ten (init env_no_playback {}) = Inr (ustr ''en'')"
  using devanagari_above_30_percent[of namaste_duniya env_no_playback "init env_no_playback {}"]
    devanagari_above_30_percent[of three_of_ten env_no_playback "init env_no_playback {}"]
  by (simp add: namaste_facts three_of_ten_facts three_of_ten_detect init_fields(2))

text \<open>
  Claim C2 as stated fails at exactly 30 percent: 3 Devanagari characters out of 10,
  no keyword, current language \<open>en\<close>. \<open>3 > 10 * 0.3\<close> is false and \<open>en\<close> is returned.
\<close>

theorem exactly_30_percent_counterexample:
  "3 * length three_of_ten \<le> 10 * length (filter devanagari three_of_ten) \<and>
   auto_detect_language env_ok three_of_ten (init env_ok {}) \<noteq> Inr (ustr ''hi'')"
proof -
  have "auto_detect_language env_ok three_of_ten (init env_ok {}) = Inr (ustr ''en'')"
    by (subst auto_detect_int) (simp_all add: three_of_ten_facts init_fields three_of_ten_detect)
  then show ?thesis by (simp add: three_of_ten_facts ustr_def)
qed

lemma inj_of_char_nat: "inj (of_char :: char \<Rightarrow> nat)"
  by (rule injI) simp

lemma ustr_eq_iff: "ustr a = ustr b \<longleftrightarrow> a = b"
  unfolding ustr_def by (rule inj_map_eq_map[OF inj_of_char_nat])

lemma five_words:
  "str_split (str_lower E (ustr ''hai dog cat bird tree''))
     = [ustr ''hai'', ustr ''dog'', ustr ''cat'', ustr ''bird'', ustr ''tree'']"
  by (simp add: ustr_def str_lower_def plain_char_def ascii_lower_def str_split_def isspace_def)

lemma five_words_keywords:
  "ustr ''hai'' \<in> set (hinglish_keywords (self (init E fs)))"
  "ustr ''dog'' \<notin> set (hinglish_keywords (self (init E fs)))"
  "ustr ''cat'' \<notin> set (hinglish_keywords (self (init E fs)))"
  "ustr ''bird'' \<notin> set (hinglish_keywords (self (init E fs)))"
  "ustr ''tree'' \<notin> set (hinglish_keywords (self (init E fs)))"
  by (simp_all add: init_fields keyword_names_def ustr_eq_iff)

lemma upper_case_keyword:
  "ustr ''HAI'' \<notin> set (hinglish_keywords (self (init E fs)))"
  by (simp add: init_fields keyword_names_def ustr_eq_iff)

lemma five_words_detect:
  "detect_hinglish E (ustr ''hai dog cat bird tree'') (init E fs) = Inr False"
  by (subst detect_hinglish_int) (simp_all add: five_words five_words_keywords)

lemma mixed_case_words:
  "str_split (str_lower E (ustr ''HAI dog cat'')) = [ustr ''hai'', ustr ''dog'', ustr ''cat'']"
  "str_split (ustr ''HAI dog cat'') = [ustr ''HAI'', ustr ''dog'', ustr ''cat'']"
  "str_split (ustr ''hai dog cat'') = [ustr ''hai'', ustr ''dog'', ustr ''cat'']"
  by (simp_all add: ustr_def str_lower_def plain_char_def ascii_lower_def str_split_def
      isspace_def)

lemma mixed_case_detect:
  "detect_hinglish E (ustr ''HAI dog cat'') (init E fs) = Inr True"
  by (subst detect_hinglish_int) (simp_all add: mixed_case_words five_words_keywords)

lemma ratio_int:
  assumes "0 < n"
  shows "(2 / 10 < real c / real n) \<longleftrightarrow> n < 5 * c"
proof -
  have "(2 / 10 < real c / real n) \<longleftrightarrow> real n * 2 < real c * 10"
    using assms by (simp add: field_simps)
  also have "\<dots> \<longleftrightarrow> real (n * 2) < real (c * 10)" by simp
  also have "\<dots> \<longleftrightarrow> n * 2 < c * 10" by (rule of_nat_less_iff)
  also have "\<dots> \<longleftrightarrow> n < 5 * c" by linarith
  finally show ?thesis .
qed

lemma five_words_plain: "length (ustr ''hai dog cat bird tree'') = 21"
  "filter devanagari (ustr ''hai dog cat bird tree'') = []"
  by (simp_all add: ustr_def devanagari_def)

lemma plain_char_lower: "plain_char c \<Longrightarrow> plain_char (ascii_lower c)"
  by (auto simp add: plain_char_def ascii_lower_def devanagari_def isspace_def)

lemma ascii_lower_idem: "ascii_lower (ascii_lower c) = ascii_lower c"
  by (simp add: ascii_lower_def)

lemma str_lower_plain:
  assumes "list_all plain_char t"
  shows "str_lower E t = map ascii_lower t"
    and "str_lower E (map ascii_lower t) = map ascii_lower t"
proof -
  show "str_lower E t = map ascii_lower t" using assms by (simp add: str_lower_def)
  have "list_all plain_char (map ascii_lower t)"
    using assms by (induction t) (simp_all add: plain_char_lower)
  then show "str_lower E (map ascii_lower t) = map ascii_lower t"
    by (simp add: str_lower_def ascii_lower_idem)
qed

lemma detect_hinglish_case:
  assumes "list_all plain_char t"
  shows "detect_hinglish E (map ascii_lower t) st = detect_hinglish E t st"
  by (simp add: detect_hinglish_def str_lower_plain[OF assms])

text \<open>
  Claim C3. \<open>detect_hinglish\<close> lower-cases the text, splits it at whitespace, counts the
  words that are in the keyword list, and answers true exactly when there is a word and
  the count divided by the number of words exceeds \<open>0.2\<close>; no word gives false. On a text
  of ASCII, Devanagari and whitespace characters the words are those of the text with
  \<open>A\<close>..\<open>Z\<close> replaced by \<open>a\<close>..\<open>z\<close>, so the answer does not depend on the case of
  the letters: \<open>HAI dog cat\<close> has one keyword in three words and the answer is true,
  although \<open>HAI\<close> as written is not in the keyword list. In \<open>hai dog cat bird tree\<close> one
  word of five is a keyword, the ratio is exactly \<open>0.2\<close>, the answer is false and
  \<open>auto_detect_language\<close> returns the current language. Word counts are below \<open>2 ^ 50\<close>,
  where the float comparison agrees with the exact one.
\<close>

theorem detect_hinglish_ratio:
  fixes E :: env and st :: state and t :: ustring
  defines "words \<equiv> str_split (str_lower E t)"
  defines "hits \<equiv> filter (\<lambda>w. w \<in> set (hinglish_keywords (self st))) words"
  shows
    "(length words < 2 ^ 50 \<longrightarrow>
        detect_hinglish E t st =
          Inr (words \<noteq> [] \<and> 2 / 10 < real (length hits) / real (length words))) \<and>
     (words = [] \<longrightarrow> detect_hinglish E t st = Inr False) \<and>
     (list_all plain_char t \<longrightarrow>
        words = str_split (map ascii_lower t) \<and>
        detect_hinglish E (map ascii_lower t) st = detect_hinglish E t st) \<and>
     ustr ''HAI'' \<notin> set (hinglish_keywords (self (init E fs))) \<and>
     detect_hinglish E (ustr ''HAI dog cat'') (init E fs) = Inr True \<and>
     detect_hinglish E (ustr ''hai dog cat bird tree'') (init E fs) = Inr False \<and>
     auto_detect_language E (ustr ''hai dog cat bird tree'') (init E fs)
       = Inr (current_language (self (init E fs)))"
proof -
  have general: "detect_hinglish E t st =
      Inr (words \<noteq> [] \<and> 2 / 10 < real (length hits) / real (length words))"
    if "length words < 2 ^ 50"
  proof (cases "words = []")
    case True
    then show ?thesis
      using detect_hinglish_int[of E t st] that by (simp add: words_def)
  next
    case False
    then have "0 < length words" by simp
    from ratio_int[OF this, of "length hits"] False show ?thesis
      using detect_hinglish_int[of E t st] that by (simp add: words_def hits_def)
  qed
  have empty: "detect_hinglish E t st = Inr False" if "words = []"
    using that by (simp add: detect_hinglish_def Let_def words_def)
  have lower: "words = str_split (map ascii_lower t) \<and>
        detect_hinglish E (map ascii_lower t) st = detect_hinglish E t st"
    if "list_all plain_char t"
    using str_lower_plain(1)[OF that] detect_hinglish_case[OF that] by (simp add: words_def)
  note dh = five_words_detect[of E fs]
  have ad: "auto_detect_language E (ustr ''hai dog cat bird tree'') (init E fs)
       = Inr (current_language (self (init E fs)))"
    by (subst auto_detect_int) (simp_all add: five_words_plain dh)
  show ?thesis
  proof (intro conjI impI)
    show "detect_hinglish E t st =
      Inr (words \<noteq> [] \<and> 2 / 10 < real (length hits) / real (length words))"
      if "length words < 2 ^ 50" using that by (rule general)
    show "detect_hinglish E t st = Inr False" if "words = []" using that by (rule empty)
    show "words = str_split (map ascii_lower t)" if "list_all plain_char t"
      using lower[OF that] by simp
    show "detect_hinglish E (map ascii_lower t) st = detect_hinglish E t st"
      if "list_all plain_char t" using lower[OF that] by simp
    show "ustr ''HAI'' \<notin> set (hinglish_keywords (self (init E fs)))"
      by (rule upper_case_keyword)
    show "detect_hinglish E (ustr ''HAI dog cat'') (init E fs) = Inr True"
      by (rule mixed_case_detect)
    show "detect_hinglish E (ustr ''hai dog cat bird tree'') (init E fs) = Inr False"
      by (rule dh)
    show "auto_detect_language E (ustr ''hai dog cat bird tree'') (init E fs)
       = Inr (current_language (self (init E fs)))" by (rule ad)
  qed
qed

lemma all_keywords:
  "str_split (str_lower E (ustr ''hai kya tum aur main''))
     = [ustr ''hai'', ustr ''kya'', ustr ''tum'', ustr ''aur'', ustr ''main'']"
  "str_split (str_lower E []) = []"
  by (simp_all add: ustr_def str_lower_def plain_char_def ascii_lower_def str_split_def
      isspace_def)

lemma keyword_members:
  "ustr ''kya'' \<in> set (hinglish_keywords (self (init E fs)))"
  "ustr ''tum'' \<in> set (hinglish_keywords (self (init E fs)))"
  "ustr ''aur'' \<in> set (hinglish_keywords (self (init E fs)))"
  "ustr ''main'' \<in> set (hinglish_keywords (self (init E fs)))"
  by (simp_all add: init_fields keyword_names_def ustr_eq_iff)

lemma mixed_case_plain:
  "list_all plain_char (ustr ''HAI dog cat'')"
  "map ascii_lower (ustr ''HAI dog cat'') = ustr ''hai dog cat''"
  by (simp_all add: ustr_def plain_char_def ascii_lower_def)

text \<open>
  Claim C3 at \<open>HAI dog cat\<close> (upper case, one keyword of three words), at
  \<open>hai kya tum aur main\<close> (five keywords of five words) and at the empty text, on a new
  object.
\<close>

theorem detect_hinglish_ratio_witness:
  "length (str_split (str_lower env_ok (ustr ''HAI dog cat''))) < 2 ^ 50 \<and>
   list_all plain_char (ustr ''HAI dog cat'') \<and>
   str_split (str_lower env_ok (ustr ''HAI dog cat'')) = str_split (ustr ''hai dog cat'') \<and>
   detect_hinglish env_ok (ustr ''HAI dog cat'') (init env_ok {}) = Inr True \<and>
   detect_hinglish env_ok (ustr ''hai dog cat'') (init env_ok {}) = Inr True \<and>
   length (str_split (str_lower env_ok (ustr ''hai kya tum aur main''))) < 2 ^ 50 \<and>
   detect_hinglish env_ok (ustr ''hai kya tum aur main'') (init env_ok {}) = Inr True \<and>
   str_split (str_lower env_ok []) = [] \<and>
   detect_hinglish env_ok [] (init env_ok {}) = Inr False \<and>
   auto_detect_language env_ok (ustr ''hai dog cat bird tree'') (init env_ok {}) = Inr (ustr ''en'')"
  using detect_hinglish_ratio[of env_ok "ustr ''HAI dog cat''" "init env_ok {}" "{}"]
    detect_hinglish_ratio[of env_ok "ustr ''hai kya tum aur main''" "init env_ok {}" "{}"]
    detect_hinglish_ratio[of env_ok "[]" "init env_ok {}" "{}"]
  by (simp add: all_keywords mixed_case_words(1,3) mixed_case_plain five_words_keywords
      keyword_members init_fields(2))


section \<open>Synthesis, playback and the temporary file\<close>

lemma record_call_fields [simp]:
  "self (record_call ev st) = self st"
  "heap (record_call ev st) = heap st"
  "heap_next (record_call ev st) = heap_next st"
  "files (record_call ev st) = files st"
  "calls (record_call ev st) = calls st @ [ev]"
  "table (record_call ev st) = table st"
  by (simp_all add: record_call_def table_def)

lemma synth_languages_append:
  "synth_languages (xs @ ys) = synth_languages xs @ synth_languages ys"
  by (induction xs rule: synth_languages.induct) simp_all

lemma wait_while_busy_ends:
  "busy (k0 + d) \<noteq> Inr True \<Longrightarrow> \<exists>r. wait_while_busy busy k0 = Some r"
proof (induction d arbitrary: k0)
  case 0
  then show ?case
    by (subst wait_while_busy.simps) (auto split: sum.splits)
next
  case (Suc d)
  then have "\<exists>r. wait_while_busy busy (Suc k0) = Some r" by simp
  then show ?case
    by (subst wait_while_busy.simps) (auto split: sum.splits)
qed

lemma wait_ends:
  assumes "busy k \<noteq> Inr True"
  shows "\<exists>r. wait_while_busy busy 0 = Some r"
  using wait_while_busy_ends[of busy 0 k] assms by simp

lemma tts_save_frame:
  assumes "tts_save E t l s fn st = (r, st1)"
  shows "self st1 = self st" "heap st1 = heap st" "heap_next st1 = heap_next st"
    "files st \<subseteq> files st1" "files st1 \<subseteq> insert fn (files st)"
    "calls st1 = calls st @ [GttsSave t l s fn]"
    "r = Inr () \<longleftrightarrow> gtts_save E t l s fn = Written"
    "r = Inr () \<Longrightarrow> fn \<in> files st1"
  using assms by (auto simp add: tts_save_def Let_def split: save_outcome.splits if_splits)

lemma play_music_frame:
  assumes "play_music E fn st = Some (r, st1)"
  shows "self st1 = self st" "heap st1 = heap st" "heap_next st1 = heap_next st"
    "files st1 = files st" "synth_languages (calls st1) = synth_languages (calls st)"
  using assms
  by (auto simp add: play_music_def Let_def synth_languages_append
      split: if_splits option.splits)

lemma play_sound_frame:
  assumes "play_sound E fn st = Some (r, st1)"
  shows "self st1 = self st" "heap st1 = heap st" "heap_next st1 = heap_next st"
    "files st1 = files st" "synth_languages (calls st1) = synth_languages (calls st)"
  using assms
  by (auto simp add: play_sound_def Let_def synth_languages_append
      split: if_splits option.splits)

lemma play_music_returns:
  assumes "music_get_busy E k \<noteq> Inr True"
  shows "\<exists>r st1. play_music E fn st = Some (r, st1)"
  using wait_ends[of "music_get_busy E" k] assms
  by (auto simp add: play_music_def Let_def split: option.splits)

lemma play_sound_returns:
  assumes "mixer_get_busy E k \<noteq> Inr True"
  shows "\<exists>r st1. play_sound E fn st = Some (r, st1)"
  using wait_ends[of "mixer_get_busy E" k] assms
  by (auto simp add: play_sound_def Let_def split: option.splits)

lemma play_audio_file_result:
  assumes "play_audio_file E fn st = Some (r, st1)"
  shows "r = Inr ()"
  using assms
  by (auto simp add: play_audio_file_def split: if_splits option.splits sum.splits prod.splits)

lemma play_audio_file_frame:
  assumes "play_audio_file E fn st = Some (r, st1)"
  shows "self st1 = self st \<and> heap st1 = heap st \<and> heap_next st1 = heap_next st \<and>
         files st1 = files st \<and> synth_languages (calls st1) = synth_languages (calls st)"
proof -
  consider (off) "\<not> audio_initialized (self st)"
    | (music) u where "play_music E fn st = Some (Inr u, st1)"
    | (sound) e r2 st0 where "play_music E fn st = Some (Inl e, st0)"
        "play_sound E fn st0 = Some (r2, st1)"
    using assms
    by (auto simp add: play_audio_file_def split: if_splits option.splits sum.splits prod.splits)
  then show ?thesis
  proof cases
    case off
    then have "st1 = st" using assms by (simp add: play_audio_file_def)
    then show ?thesis by simp
  next
    case music
    from play_music_frame[OF this] show ?thesis by simp
  next
    case sound
    from play_music_frame[OF sound(1)] play_sound_frame[OF sound(2)]
    show ?thesis by auto
  qed
qed

lemma play_audio_file_returns:
  assumes "music_get_busy E ka \<noteq> Inr True" "mixer_get_busy E kb \<noteq> Inr True"
  shows "\<exists>st1. play_audio_file E fn st = Some (Inr (), st1)"
proof -
  obtain r st0 where m: "play_music E fn st = Some (r, st0)"
    using play_music_returns[OF assms(1)] by blast
  obtain r2 st2 where s: "play_sound E fn st0 = Some (r2, st2)"
    using play_sound_returns[OF assms(2)] by blast
  show ?thesis
    using m s by (auto simp add: play_audio_file_def split: sum.splits)
qed


lemma cleanup_frame:
  "self (cleanup E tmp st) = self st"
  "heap (cleanup E tmp st) = heap st"
  "heap_next (cleanup E tmp st) = heap_next st"
  "synth_languages (calls (cleanup E tmp st)) = synth_languages (calls st)"
  by (simp_all add: cleanup_def Let_def synth_languages_append split: option.splits)

lemma cleanup_effect:
  assumes "tmp \<in> files st"
  shows "Unlink tmp \<in> set (calls (cleanup E tmp st))"
    and "tmp \<in> files (cleanup E tmp st) \<longleftrightarrow> os_unlink E tmp \<noteq> None"
  using assms by (auto simp add: cleanup_def Let_def split: option.splits)

lemma save_and_play_frame:
  assumes "save_and_play E t l s tmp st = Some (r, st1)"
  shows "self st1 = self st \<and> heap st1 = heap st \<and> heap_next st1 = heap_next st \<and>
         files st \<subseteq> files st1 \<and>
         synth_languages (calls st1) = synth_languages (calls st) @ [l] \<and>
         (r = Inr () \<longleftrightarrow> gtts_save E t l s tmp = Written)"
proof -
  obtain r0 st0 where sv: "tts_save E t l s tmp st = (r0, st0)" by (cases "tts_save E t l s tmp st")
  note f = tts_save_frame[OF sv]
  have sl: "synth_languages (calls st0) = synth_languages (calls st) @ [l]"
    by (simp add: f(6) synth_languages_append)
  show ?thesis
  proof (cases r0)
    case (Inl e)
    then have "r = Inl e" "st1 = st0" using assms sv by (simp_all add: save_and_play_def)
    then show ?thesis using f sl Inl by auto
  next
    case (Inr u)
    show ?thesis
    proof (cases "audio_initialized (self st0)")
      case True
      then have p: "play_audio_file E tmp st0 = Some (r, st1)"
        using assms sv Inr by (simp add: save_and_play_def)
      from play_audio_file_frame[OF p] play_audio_file_result[OF p] f sl Inr
      show ?thesis by auto
    next
      case False
      then have "r = Inr ()" "st1 = st0" using assms sv Inr by (simp_all add: save_and_play_def)
      then show ?thesis using f sl Inr by auto
    qed
  qed
qed

lemma save_and_play_returns:
  assumes "music_get_busy E ka \<noteq> Inr True" "mixer_get_busy E kb \<noteq> Inr True"
  shows "\<exists>r st1. save_and_play E t l s tmp st = Some (r, st1)"
proof -
  obtain r0 st0 where sv: "tts_save E t l s tmp st = (r0, st0)" by (cases "tts_save E t l s tmp st")
  obtain st1 where "play_audio_file E tmp st0 = Some (Inr (), st1)"
    using play_audio_file_returns[OF assms] by blast
  then show ?thesis using sv by (auto simp add: save_and_play_def split: sum.splits)
qed


lemma rejected_language:
  assumes "\<not> dict_contains (table st) l"
  shows "generate_audio E t l s fn st = (Inr False, st)"
    and "generate_and_play E t l s st = Some (Inr False, st)"
  using assms
  by (simp_all add: generate_audio_def generate_audio_body_def generate_and_play_def
      generate_and_play_body_def)

lemma generate_audio_spec:
  assumes "generate_audio E t l s fn st = (r, st1)"
  shows "r = Inr (dict_contains (table st) l \<and> gtts_new E t l s = None \<and>
                  gtts_save E t l s fn = Written) \<and>
    self st1 = self st \<and> heap st1 = heap st \<and> heap_next st1 = heap_next st \<and>
    set (synth_languages (calls st1)) \<subseteq> set (synth_languages (calls st)) \<union> {l} \<and>
    (set (synth_languages (calls st1)) \<noteq> set (synth_languages (calls st))
           \<longrightarrow> dict_contains (table st) l)"
proof (cases "dict_contains (table st) l")
  case False
  then have "r = Inr False" "st1 = st"
    using assms rejected_language(1)[OF False, of E t s fn] by simp_all
  then show ?thesis using False by auto
next
  case sup: True
  define st0 where "st0 = record_call (GttsNew t l s) st"
  have st0: "self st0 = self st" "heap st0 = heap st" "heap_next st0 = heap_next st"
    "synth_languages (calls st0) = synth_languages (calls st) @ [l]"
    by (simp_all add: st0_def synth_languages_append)
  show ?thesis
  proof (cases "gtts_new E t l s")
    case (Some e)
    then have "r = Inr False" "st1 = st0"
      using assms sup
      by (simp_all add: generate_audio_def generate_audio_body_def Let_def st0_def)
    then show ?thesis using Some sup st0 by auto
  next
    case new: None
    obtain r0 st2 where sv: "tts_save E t l s fn st0 = (r0, st2)"
      by (cases "tts_save E t l s fn st0")
    note f = tts_save_frame[OF sv]
    have sl: "synth_languages (calls st2) = synth_languages (calls st) @ [l, l]"
      by (simp add: f(6) synth_languages_append st0)
    have "st1 = st2" "r = Inr (r0 = Inr ())"
      using assms sup new sv
      by (auto simp add: generate_audio_def generate_audio_body_def Let_def st0_def
          split: sum.splits)
    then show ?thesis using f(1,2,3,7) st0 sl sup new by auto
  qed
qed

lemma generate_and_play_spec:
  assumes "generate_and_play E t l s st = Some (r, st1)"
  shows "r = Inr (dict_contains (table st) l \<and> gtts_new E t l s = None \<and> temp_ok E t l s) \<and>
    self st1 = self st \<and> heap st1 = heap st \<and> heap_next st1 = heap_next st \<and>
    set (synth_languages (calls st1)) \<subseteq> set (synth_languages (calls st)) \<union> {l} \<and>
    (set (synth_languages (calls st1)) \<noteq> set (synth_languages (calls st))
           \<longrightarrow> dict_contains (table st) l)"
proof (cases "dict_contains (table st) l")
  case False
  then have "r = Inr False" "st1 = st"
    using assms rejected_language(2)[OF False, of E t s] by simp_all
  then show ?thesis using False by auto
next
  case sup: True
  define st0 where "st0 = record_call (GttsNew t l s) st"
  show ?thesis
  proof (cases "gtts_new E t l s")
    case (Some e)
    then have "r = Inr False" "st1 = st0"
      using assms sup
      by (simp_all add: generate_and_play_def generate_and_play_body_def Let_def st0_def)
    then show ?thesis using Some sup by (simp add: st0_def synth_languages_append)
  next
    case new: None
    show ?thesis
    proof (cases "named_temporary_file E")
      case (Inl e)
      then have "r = Inr False" "st1 = st0"
        using assms sup new
        by (simp_all add: generate_and_play_def generate_and_play_body_def Let_def st0_def)
      then show ?thesis using Inl sup by (simp add: st0_def synth_languages_append temp_ok_def)
    next
      case tmp: (Inr tmp)
      define st2 where "st2 = record_call (TempFile tmp) (st0\<lparr>files := insert tmp (files st0)\<rparr>)"
      have st2: "self st2 = self st" "heap st2 = heap st" "heap_next st2 = heap_next st"
        "synth_languages (calls st2) = synth_languages (calls st) @ [l]"
        by (simp_all add: st2_def st0_def synth_languages_append)
      show ?thesis
      proof (cases "file_close E")
        case (Some e)
        then have "r = Inr False" "st1 = st2"
          using assms sup new tmp
          by (simp_all add: generate_and_play_def generate_and_play_body_def Let_def
              st0_def st2_def)
        then show ?thesis using Some sup tmp st2 by (simp add: temp_ok_def)
      next
        case cl: None
        obtain r3 st3 where sp: "save_and_play E t l s tmp st2 = Some (r3, st3)"
          and st1: "st1 = cleanup E tmp st3"
          and r: "r = Inr (r3 = Inr ())"
          using assms sup new tmp cl
          by (auto simp add: generate_and_play_def generate_and_play_body_def Let_def
              st0_def st2_def split: option.splits sum.splits prod.splits)
        from save_and_play_frame[OF sp] st2 sup new tmp cl r st1
        show ?thesis by (auto simp add: cleanup_frame temp_ok_def)
      qed
    qed
  qed
qed


lemma generate_and_play_returns:
  assumes "music_get_busy E ka \<noteq> Inr True" "mixer_get_busy E kb \<noteq> Inr True"
  shows "\<exists>r st1. generate_and_play E t l s st = Some (r, st1)"
proof -
  have "\<exists>r st1. generate_and_play_body E t l s st = Some (r, st1)"
  proof (cases "named_temporary_file E")
    case (Inl e)
    then show ?thesis
      by (simp add: generate_and_play_body_def Let_def split: option.splits)
  next
    case (Inr tmp)
    define st2 where "st2 = record_call (TempFile tmp)
        (record_call (GttsNew t l s) st\<lparr>files := insert tmp (files (record_call (GttsNew t l s) st))\<rparr>)"
    obtain r3 st3 where "save_and_play E t l s tmp st2 = Some (r3, st3)"
      using save_and_play_returns[OF assms] by blast
    then show ?thesis using Inr
      by (cases r3) (simp_all add: generate_and_play_body_def Let_def st2_def split: option.splits)
  qed
  then obtain r0 st0 where "generate_and_play_body E t l s st = Some (r0, st0)" by blast
  then show ?thesis by (cases r0) (simp_all add: generate_and_play_def)
qed


lemma init_table: "table (init E fs) = initial_languages"
  by (simp add: table_def init_fields)

lemma ustr_empty: "ustr s = [] \<longleftrightarrow> s = []" "[] = ustr s \<longleftrightarrow> s = []"
  by (auto simp add: ustr_def)

lemma initial_codes:
  "dict_contains initial_languages (ustr ''en'')"
  "dict_contains initial_languages (ustr ''hi'')"
  "\<not> dict_contains initial_languages (ustr ''xx'')"
  "\<not> dict_contains initial_languages []"
  by (simp_all add: dict_contains_def initial_languages_def language_names_def ustr_eq_iff
      ustr_empty)

lemma ustr_nonempty: "ustr ''en'' \<noteq> []" "ustr ''hi'' \<noteq> []" "ustr ''xx'' \<noteq> []"
  by (simp_all add: ustr_def)

lemma wait_one_poll:
  "wait_while_busy (\<lambda>k. Inr (k < 1)) 0 = Some (Inr ())"
  "wait_while_busy (\<lambda>k. Inr (k = 0)) 0 = Some (Inr ())"
  by ((subst wait_while_busy.simps, simp)+)+

lemma env_ok_fields:
  "mixer_init env_ok = None"
  "gtts_new env_ok = (\<lambda>text language slow. None)"
  "gtts_save env_ok = (\<lambda>text language slow filename. Written)"
  "named_temporary_file env_ok = Inr (ustr ''/tmp/tmp0.mp3'')"
  "file_close env_ok = None"
  "os_unlink env_ok = (\<lambda>p. None)"
  "music_load env_ok = (\<lambda>p. None)"
  "music_play env_ok = None"
  "music_get_busy env_ok = (\<lambda>k. Inr (k < 1))"
  "sound_new env_ok = (\<lambda>p. None)"
  "sound_play env_ok = None"
  "mixer_get_busy env_ok = (\<lambda>k. Inr (k < 1))"
  by (simp_all add: env_ok_def)

text \<open>
  Claim C4 at \<open>save('hello', 'out.mp3', '')\<close> on a new object. The empty string is not a key
  of the table, yet the call returns \<open>True\<close>: \<open>language or self.current_language\<close> takes
  the empty string for a missing argument, gTTS is called with \<open>en\<close> and \<open>out.mp3\<close> is
  written. The docstring says the current language is used when the argument is \<open>None\<close>.
\<close>

theorem save_empty_code_uses_default:
  "\<not> dict_contains (table (init env_ok {})) [] \<and>
   save env_ok (ustr ''hello'') (ustr ''out.mp3'') (Some []) None (init env_ok {}) =
     (Inr True,
      (record_call (GttsSave (ustr ''hello'') (ustr ''en'') False (ustr ''out.mp3''))
         (record_call (GttsNew (ustr ''hello'') (ustr ''en'') False) (init env_ok {})))
       \<lparr>files := {ustr ''out.mp3''}\<rparr>)"
  by (simp add: init_table initial_codes save_def lang_or_current_def speed_or_current_def
      init_fields generate_audio_def generate_audio_body_def tts_save_def env_ok_fields Let_def)

lemma unsupported_code_rejected:
  assumes "c \<noteq> []" "\<not> dict_contains (table st) c"
  shows "save E t fn (Some c) slow st = (Inr False, st)"
    and "speak E t (Some c) slow st = Some (Inr False, st)"
  using assms
  by (simp_all add: save_def speak_def lang_or_current_def rejected_language)


lemma env_no_playback_fields:
  "mixer_init env_no_playback = None"
  "gtts_new env_no_playback = (\<lambda>text language slow. None)"
  "gtts_save env_no_playback = (\<lambda>text language slow filename. Written)"
  "named_temporary_file env_no_playback = Inr (ustr ''/tmp/tmp0.mp3'')"
  "file_close env_no_playback = None"
  "os_unlink env_no_playback = (\<lambda>p. None)"
  "music_load env_no_playback = (\<lambda>p. Some PygameError)"
  "sound_new env_no_playback = (\<lambda>p. Some PygameError)"
  "music_get_busy env_no_playback = (\<lambda>k. Inr (k < 1))"
  "mixer_get_busy env_no_playback = (\<lambda>k. Inr (k < 1))"
  by (simp_all add: env_no_playback_def env_ok_def)

lemma env_no_unlink_fields:
  "mixer_init env_no_unlink = None"
  "gtts_new env_no_unlink = (\<lambda>text language slow. None)"
  "gtts_save env_no_unlink = (\<lambda>text language slow filename. Written)"
  "named_temporary_file env_no_unlink = Inr (ustr ''/tmp/tmp0.mp3'')"
  "file_close env_no_unlink = None"
  "os_unlink env_no_unlink = (\<lambda>p. Some OSError)"
  "music_load env_no_unlink = (\<lambda>p. None)"
  "music_play env_no_unlink = None"
  "music_get_busy env_no_unlink = (\<lambda>k. Inr (k < 1))"
  by (simp_all add: env_no_unlink_def env_ok_def)

lemmas facade_defs =
  speak_def lang_or_current_def speed_or_current_def generate_and_play_def
  generate_and_play_body_def save_and_play_def tts_save_def play_audio_file_def
  play_music_def play_sound_def cleanup_def Let_def

text \<open>
  Claim C5 at \<open>speak('hello', language='')\<close> on a new object. The empty string is not a key
  of the table; it is replaced by the session default \<open>en\<close>, which reaches gTTS, and the
  call returns \<open>True\<close> instead of failing.
\<close>

theorem speak_empty_code_uses_default:
  "\<not> dict_contains (table (init env_ok {})) [] \<and>
   map_option fst (speak env_ok (ustr ''hello'') (Some []) None (init env_ok {})) =
     Some (Inr True) \<and>
   map_option (calls \<circ> snd) (speak env_ok (ustr ''hello'') (Some []) None (init env_ok {})) =
   Some (
     [GttsNew (ustr ''hello'') (ustr ''en'') False,
      TempFile (ustr ''/tmp/tmp0.mp3''),
      GttsSave (ustr ''hello'') (ustr ''en'') False (ustr ''/tmp/tmp0.mp3''),
      MusicLoad (ustr ''/tmp/tmp0.mp3''),
      MusicPlay,
      Unlink (ustr ''/tmp/tmp0.mp3'')])"
  by (simp add: init_table initial_codes init_fields facade_defs env_ok_fields wait_one_poll)

text \<open>
  Claim C8 as stated fails when playback fails: pygame can load the file neither as music
  nor as a sound, both errors are caught inside \<open>_play_audio_file\<close>, and \<open>speak\<close> returns
  \<open>True\<close>.
\<close>

theorem playback_failure_counterexample:
  "music_load env_no_playback (ustr ''/tmp/tmp0.mp3'') = Some PygameError \<and>
   sound_new env_no_playback (ustr ''/tmp/tmp0.mp3'') = Some PygameError \<and>
   map_option fst (speak env_no_playback (ustr ''hello'') None None (init env_no_playback {})) =
     Some (Inr True) \<and>
   map_option (calls \<circ> snd)
     (speak env_no_playback (ustr ''hello'') None None (init env_no_playback {})) =
   Some (
     [GttsNew (ustr ''hello'') (ustr ''en'') False,
      TempFile (ustr ''/tmp/tmp0.mp3''),
      GttsSave (ustr ''hello'') (ustr ''en'') False (ustr ''/tmp/tmp0.mp3''),
      MusicLoad (ustr ''/tmp/tmp0.mp3''),
      SoundNew (ustr ''/tmp/tmp0.mp3''),
      Unlink (ustr ''/tmp/tmp0.mp3'')])"
  by (simp add: init_table initial_codes init_fields facade_defs env_no_playback_fields)

text \<open>
  Claim C9 as stated fails when \<open>os.unlink\<close> raises: the handler inside \<open>finally\<close> prints a
  warning, \<open>speak\<close> returns \<open>True\<close> and the temporary file is still there.
\<close>

theorem failed_unlink_counterexample:
  "os_unlink env_no_unlink (ustr ''/tmp/tmp0.mp3'') = Some OSError \<and>
   map_option fst (speak env_no_unlink (ustr ''hello'') None None (init env_no_unlink {})) =
     Some (Inr True) \<and>
   map_option (files \<circ> snd)
     (speak env_no_unlink (ustr ''hello'') None None (init env_no_unlink {})) =
     Some {ustr ''/tmp/tmp0.mp3''} \<and>
   map_option (calls \<circ> snd)
     (speak env_no_unlink (ustr ''hello'') None None (init env_no_unlink {})) =
   Some (
     [GttsNew (ustr ''hello'') (ustr ''en'') False,
      TempFile (ustr ''/tmp/tmp0.mp3''),
      GttsSave (ustr ''hello'') (ustr ''en'') False (ustr ''/tmp/tmp0.mp3''),
      MusicLoad (ustr ''/tmp/tmp0.mp3''),
      MusicPlay,
      Unlink (ustr ''/tmp/tmp0.mp3'')])"
  by (simp add: init_table initial_codes init_fields facade_defs env_no_unlink_fields wait_one_poll)


lemma speak_and_save_spec:
  assumes "speak_and_save E t fn language slow st = Some (r, st1)"
  shows "r = Inr (dict_contains (table st) (lang_or_current language st) \<and>
                  gtts_new E t (lang_or_current language st) (speed_or_current slow st) = None \<and>
                  gtts_save E t (lang_or_current language st) (speed_or_current slow st) fn = Written) \<and>
         self st1 = self st \<and> heap st1 = heap st"
proof -
  define l where "l = lang_or_current language st"
  define s where "s = speed_or_current slow st"
  obtain r0 st0 where ga: "generate_audio E t l s fn st = (r0, st0)"
    by (cases "generate_audio E t l s fn st")
  note g = generate_audio_spec[OF ga]
  define ok where "ok = (dict_contains (table st) l \<and> gtts_new E t l s = None \<and>
                  gtts_save E t l s fn = Written)"
  have r0: "r0 = Inr ok" using g by (simp add: ok_def)
  show ?thesis
  proof (cases "ok \<and> audio_initialized (self st0)")
    case True
    obtain r2 st2 where p: "play_audio_file E fn st0 = Some (r2, st2)"
      using assms ga r0 True
      by (auto simp add: speak_and_save_def Let_def l_def s_def split: option.splits)
    have r2: "r2 = Inr ()" by (rule play_audio_file_result[OF p])
    have r: "r = Inr True" and st1: "st1 = st2"
      using assms ga r0 True p r2
      by (simp_all add: speak_and_save_def Let_def l_def s_def)
    from play_audio_file_frame[OF p] g r st1 True show ?thesis
      by (simp add: ok_def l_def s_def)
  next
    case False
    then have "r = Inr ok" "st1 = st0"
      using assms ga r0
      by (auto simp add: speak_and_save_def Let_def l_def s_def split: if_splits)
    then show ?thesis using g by (simp add: ok_def l_def s_def)
  qed
qed

lemma speak_and_save_returns:
  assumes "music_get_busy E ka \<noteq> Inr True" "mixer_get_busy E kb \<noteq> Inr True"
  shows "\<exists>r st1. speak_and_save E t fn language slow st = Some (r, st1)"
proof -
  define l where "l = lang_or_current language st"
  define s where "s = speed_or_current slow st"
  obtain r0 st0 where ga: "generate_audio E t l s fn st = (r0, st0)"
    by (cases "generate_audio E t l s fn st")
  obtain b where r0: "r0 = Inr b" using generate_audio_spec[OF ga] by blast
  obtain st2 where "play_audio_file E fn st0 = Some (Inr (), st2)"
    using play_audio_file_returns[OF assms] by blast
  then show ?thesis using ga r0
    by (simp add: speak_and_save_def Let_def l_def[symmetric] s_def[symmetric])
qed

text \<open>
  Claim C8, amended. \<open>speak\<close>, \<open>save\<close> and \<open>speak_and_save\<close> never raise: whenever they
  return, the value is a boolean. It is \<open>True\<close> exactly when the language is a key of the
  table, the gTTS object is created and the audio is written (for \<open>speak\<close>: the temporary
  file is created, closed and written); an unsupported language, a synthesis error and a
  file error give \<open>False\<close>. A playback error and a failed deletion of the temporary file
  are caught where they occur and do not change the value. The object (default language,
  speed flag, table) is the same after every call, failed or not. \<open>save\<close> always returns;
  \<open>speak\<close> and \<open>speak_and_save\<close> return once a poll of the playback answers other than
  busy.
\<close>

theorem facade_never_raises:
  fixes E :: env and t :: ustring and fn :: path and st :: state
    and language :: "ustring option" and slow :: "bool option"
  defines "lang \<equiv> lang_or_current language st"
  defines "speed \<equiv> speed_or_current slow st"
  shows
    "(\<forall>r st1. speak E t language slow st = Some (r, st1) \<longrightarrow>
        r = Inr (dict_contains (table st) lang \<and> gtts_new E t lang speed = None \<and>
                 temp_ok E t lang speed) \<and>
        self st1 = self st \<and> heap st1 = heap st) \<and>
     (\<forall>r st1. save E t fn language slow st = (r, st1) \<longrightarrow>
        r = Inr (dict_contains (table st) lang \<and> gtts_new E t lang speed = None \<and>
                 gtts_save E t lang speed fn = Written) \<and>
        self st1 = self st \<and> heap st1 = heap st) \<and>
     (\<forall>r st1. speak_and_save E t fn language slow st = Some (r, st1) \<longrightarrow>
        r = Inr (dict_contains (table st) lang \<and> gtts_new E t lang speed = None \<and>
                 gtts_save E t lang speed fn = Written) \<and>
        self st1 = self st \<and> heap st1 = heap st) \<and>
     (music_get_busy E ka \<noteq> Inr True \<and> mixer_get_busy E kb \<noteq> Inr True \<longrightarrow>
        (\<exists>r st1. speak E t language slow st = Some (r, st1)) \<and>
        (\<exists>r st1. speak_and_save E t fn language slow st = Some (r, st1)))"
proof (intro conjI allI impI)
  fix r st1
  assume "speak E t language slow st = Some (r, st1)"
  then have gp: "generate_and_play E t lang speed st = Some (r, st1)"
    by (simp add: speak_def Let_def lang_def speed_def)
  from generate_and_play_spec[OF gp]
  show "r = Inr (dict_contains (table st) lang \<and> gtts_new E t lang speed = None \<and>
                 temp_ok E t lang speed)" "self st1 = self st" "heap st1 = heap st"
    by simp_all
next
  fix r st1
  assume "save E t fn language slow st = (r, st1)"
  then have ga: "generate_audio E t lang speed fn st = (r, st1)"
    by (simp add: save_def Let_def lang_def speed_def)
  from generate_audio_spec[OF ga]
  show "r = Inr (dict_contains (table st) lang \<and> gtts_new E t lang speed = None \<and>
                 gtts_save E t lang speed fn = Written)" "self st1 = self st" "heap st1 = heap st"
    by simp_all
next
  fix r st1
  assume a: "speak_and_save E t fn language slow st = Some (r, st1)"
  from speak_and_save_spec[OF a]
  show "r = Inr (dict_contains (table st) lang \<and> gtts_new E t lang speed = None \<and>
                 gtts_save E t lang speed fn = Written)" "self st1 = self st" "heap st1 = heap st"
    by (simp_all add: lang_def speed_def)
next
  assume a: "music_get_busy E ka \<noteq> Inr True \<and> mixer_get_busy E kb \<noteq> Inr True"
  then show "\<exists>r st1. speak E t language slow st = Some (r, st1)"
    using generate_and_play_returns[of E ka kb t lang speed st]
    by (simp add: speak_def Let_def lang_def speed_def)
  from a show "\<exists>r st1. speak_and_save E t fn language slow st = Some (r, st1)"
    using speak_and_save_returns[of E ka kb] by simp
qed

text \<open>
  Claim C9, amended. When \<open>speak\<close> is called with a supported language and the temporary
  file is created and closed, then on every exit path (playback finished, playback skipped,
  \<open>tts.save\<close> failed, playback failed) the call returns after \<open>os.unlink\<close> was called on
  the temporary file, and the file is still there afterwards exactly when \<open>os.unlink\<close>
  raised.
\<close>

theorem temporary_file_cleanup:
  assumes "dict_contains (table st) (lang_or_current language st)"
    and "gtts_new E t (lang_or_current language st) (speed_or_current slow st) = None"
    and "named_temporary_file E = Inr tmp"
    and "file_close E = None"
    and "music_get_busy E ka \<noteq> Inr True"
    and "mixer_get_busy E kb \<noteq> Inr True"
  shows "\<exists>r st1. speak E t language slow st = Some (r, st1) \<and>
           Unlink tmp \<in> set (calls st1) \<and>
           (tmp \<in> files st1 \<longleftrightarrow> os_unlink E tmp \<noteq> None)"
proof -
  define l where "l = lang_or_current language st"
  define s where "s = speed_or_current slow st"
  define st0 where "st0 = record_call (GttsNew t l s) st"
  define st2 where "st2 = record_call (TempFile tmp) (st0\<lparr>files := insert tmp (files st0)\<rparr>)"
  obtain r3 st3 where sp: "save_and_play E t l s tmp st2 = Some (r3, st3)"
    using save_and_play_returns[OF assms(5,6)] by blast
  have "tmp \<in> files st2" by (simp add: st2_def)
  then have tmp: "tmp \<in> files st3" using save_and_play_frame[OF sp] by blast
  have body: "generate_and_play_body E t l s st =
      Some (case r3 of Inl e \<Rightarrow> Inl e | Inr u \<Rightarrow> Inr True, cleanup E tmp st3)"
    using assms(1,2,3,4) sp
    by (simp add: generate_and_play_body_def Let_def l_def[symmetric] s_def[symmetric]
        st0_def[symmetric] st2_def[symmetric] split: sum.splits)
  have "\<exists>r. speak E t language slow st = Some (r, cleanup E tmp st3)"
    using body
    by (simp add: speak_def Let_def generate_and_play_def l_def[symmetric] s_def[symmetric]
        split: sum.splits)
  then show ?thesis using cleanup_effect[OF tmp, of E] by blast
qed


text \<open>
  Claim C8, amended, on a new object whose playback fails both ways: \<open>speak\<close> returns
  \<open>True\<close>, \<open>speak_and_save\<close> with the unsupported code \<open>xx\<close> returns \<open>False\<close>, \<open>save\<close> with
  \<open>hi\<close> returns \<open>True\<close>, and the object is unchanged.
\<close>

theorem facade_never_raises_witness:
  "music_get_busy env_no_playback 1 \<noteq> Inr True \<and>
   mixer_get_busy env_no_playback 1 \<noteq> Inr True \<and>
   (\<exists>st1. speak env_no_playback (ustr ''hello'') None None (init env_no_playback {})
              = Some (Inr True, st1) \<and>
           self st1 = self (init env_no_playback {})) \<and>
   (\<exists>st1. speak_and_save env_no_playback (ustr ''hello'') (ustr ''out.mp3'') (Some (ustr ''xx''))
              None (init env_no_playback {}) = Some (Inr False, st1) \<and>
           self st1 = self (init env_no_playback {})) \<and>
   fst (save env_no_playback (ustr ''hello'') (ustr ''out.mp3'') (Some (ustr ''hi'')) None
          (init env_no_playback {})) = Inr True"
proof -
  let ?st = "init env_no_playback {}"
  note T1 = facade_never_raises[where E = env_no_playback and t = "ustr ''hello''"
      and language = None and slow = None and st = ?st and fn = "ustr ''out.mp3''"
      and ka = 1 and kb = 1]
  note T2 = facade_never_raises[where E = env_no_playback and t = "ustr ''hello''"
      and language = "Some (ustr ''xx'')" and slow = None and st = ?st
      and fn = "ustr ''out.mp3''" and ka = 1 and kb = 1]
  note T3 = facade_never_raises[where E = env_no_playback and t = "ustr ''hello''"
      and language = "Some (ustr ''hi'')" and slow = None and st = ?st
      and fn = "ustr ''out.mp3''" and ka = 1 and kb = 1]
  have polls: "music_get_busy env_no_playback 1 \<noteq> Inr True"
    "mixer_get_busy env_no_playback 1 \<noteq> Inr True"
    by (simp_all add: env_no_playback_fields)
  have codes: "lang_or_current None ?st = ustr ''en''"
    "lang_or_current (Some (ustr ''xx'')) ?st = ustr ''xx''"
    "lang_or_current (Some (ustr ''hi'')) ?st = ustr ''hi''"
    by (simp_all add: lang_or_current_def init_fields ustr_empty)
  have ok: "temp_ok env_no_playback (ustr ''hello'') (ustr ''en'') b" for b
    by (simp add: temp_ok_def env_no_playback_fields)
  obtain r1 s1 where a1: "speak env_no_playback (ustr ''hello'') None None ?st = Some (r1, s1)"
    using T1 polls by blast
  then have b1: "r1 = Inr True \<and> self s1 = self ?st"
    using T1 by (simp add: codes init_table initial_codes env_no_playback_fields ok)
  obtain r2 s2 where a2: "speak_and_save env_no_playback (ustr ''hello'') (ustr ''out.mp3'')
      (Some (ustr ''xx'')) None ?st = Some (r2, s2)"
    using T2 polls by blast
  then have b2: "r2 = Inr False \<and> self s2 = self ?st"
    using T2 by (simp add: codes init_table initial_codes)
  obtain r3 s3 where a3: "save env_no_playback (ustr ''hello'') (ustr ''out.mp3'')
      (Some (ustr ''hi'')) None ?st = (r3, s3)"
    by (cases "save env_no_playback (ustr ''hello'') (ustr ''out.mp3'') (Some (ustr ''hi'')) None ?st")
  then have b3: "r3 = Inr True"
    using T3 by (simp add: codes init_table initial_codes env_no_playback_fields)
  show ?thesis using polls a1 b1 a2 b2 a3 b3 by simp
qed

text \<open>
  Claim C9, amended, on a new object where every collaborator succeeds: \<open>os.unlink\<close> is
  called on \<open>/tmp/tmp0.mp3\<close> and the file is gone.
\<close>

theorem temporary_file_cleanup_witness:
  "dict_contains (table (init env_ok {})) (lang_or_current None (init env_ok {})) \<and>
   gtts_new env_ok (ustr ''hello'') (lang_or_current None (init env_ok {}))
     (speed_or_current None (init env_ok {})) = None \<and>
   named_temporary_file env_ok = Inr (ustr ''/tmp/tmp0.mp3'') \<and>
   file_close env_ok = None \<and>
   music_get_busy env_ok 1 \<noteq> Inr True \<and>
   mixer_get_busy env_ok 1 \<noteq> Inr True \<and>
   os_unlink env_ok (ustr ''/tmp/tmp0.mp3'') = None \<and>
   (\<exists>r st1. speak env_ok (ustr ''hello'') None None (init env_ok {}) = Some (r, st1) \<and>
      Unlink (ustr ''/tmp/tmp0.mp3'') \<in> set (calls st1) \<and>
      ustr ''/tmp/tmp0.mp3'' \<notin> files st1)"
proof -
  have h: "dict_contains (table (init env_ok {})) (lang_or_current None (init env_ok {}))"
    "gtts_new env_ok (ustr ''hello'') (lang_or_current None (init env_ok {}))
       (speed_or_current None (init env_ok {})) = None"
    "named_temporary_file env_ok = Inr (ustr ''/tmp/tmp0.mp3'')"
    "file_close env_ok = None"
    "music_get_busy env_ok 1 \<noteq> Inr True"
    "mixer_get_busy env_ok 1 \<noteq> Inr True"
    by (simp_all add: lang_or_current_def init_fields init_table initial_codes env_ok_fields)
  have u: "os_unlink env_ok (ustr ''/tmp/tmp0.mp3'') = None" by (simp add: env_ok_fields)
  show ?thesis
    using temporary_file_cleanup[OF h] h u by simp
qed


section \<open>The table, its copies and the codes in use\<close>

lemma mutate_dict_fields [simp]:
  "self (mutate_dict a f st) = self st"
  "heap_next (mutate_dict a f st) = heap_next st"
  "files (mutate_dict a f st) = files st"
  "calls (mutate_dict a f st) = calls st"
  by (simp_all add: mutate_dict_def)



lemma lift_mutation_simps [simp]:
  "lift_mutation a f None = None"
  "lift_mutation a f (Some (r, st)) = Some (r, mutate_dict a f st)"
  by (simp_all add: lift_mutation_def)










lemma lang_or_current_mutate [simp]:
  "lang_or_current language (mutate_dict a f st) = lang_or_current language st"
  "speed_or_current slow (mutate_dict a f st) = speed_or_current slow st"
  by (simp_all add: lang_or_current_def speed_or_current_def split: option.splits)




lemma detect_mutate [simp]:
  "detect_hinglish E t (mutate_dict a f st) = detect_hinglish E t st"
  "auto_detect_language E t (mutate_dict a f st) = auto_detect_language E t st"
  by (simp_all add: detect_hinglish_def auto_detect_language_def split: sum.splits)







lemma speak_frame:
  assumes "speak E t language slow st = Some (r, st1)"
  shows "self st1 = self st \<and> heap st1 = heap st \<and> heap_next st1 = heap_next st"
  using generate_and_play_spec[of E t "lang_or_current language st" "speed_or_current slow st" st r st1]
    assms by (simp add: speak_def Let_def)

lemma save_frame:
  assumes "save E t p language slow st = (r, st1)"
  shows "self st1 = self st \<and> heap st1 = heap st \<and> heap_next st1 = heap_next st"
  using generate_audio_spec[of E t "lang_or_current language st" "speed_or_current slow st" p st r st1]
    assms by (simp add: save_def Let_def)

lemma speak_and_save_frame:
  assumes "speak_and_save E t p language slow st = Some (r, st1)"
  shows "self st1 = self st \<and> heap st1 = heap st \<and> heap_next st1 = heap_next st"
proof -
  define l where "l = lang_or_current language st"
  define s where "s = speed_or_current slow st"
  obtain r0 st0 where ga: "generate_audio E t l s p st = (r0, st0)"
    by (cases "generate_audio E t l s p st")
  note g = generate_audio_spec[OF ga]
  have "st1 = st0 \<or> (\<exists>r2. play_audio_file E p st0 = Some (r2, st1))"
    using assms ga
    by (auto simp add: speak_and_save_def Let_def l_def[symmetric] s_def[symmetric]
        split: sum.splits if_splits option.splits)
  then show ?thesis using g play_audio_file_frame[of E p st0 _ st1] by auto
qed

lemma speak_hinglish_frame:
  assumes "speak_hinglish E t slow auto_detect st = Some (r, st1)"
  shows "self st1 = self st \<and> heap st1 = heap st \<and> heap_next st1 = heap_next st"
  using assms speak_frame[of E t _ "Some slow" st r st1]
  by (auto simp add: speak_hinglish_def split: if_splits sum.splits)

lemma do_call_frame:
  assumes "do_call E c st = Some (r, st1)" "wf_state st"
  shows "supported_languages (self st1) = supported_languages (self st) \<and>
         heap_next st \<le> heap_next st1 \<and> table st1 = table st \<and> wf_state st1"
proof (cases c)
  case (SetLanguage x)
  then show ?thesis using assms
    by (auto simp add: set_language_def table_def wf_state_def split: if_splits)
next
  case (SetSpeed x)
  then show ?thesis using assms by (auto simp add: set_speed_def table_def wf_state_def)
next
  case (Speak t language slow)
  then obtain r0 where "speak E t language slow st = Some (r0, st1)"
    using assms by (auto split: option.splits)
  from speak_frame[OF this] assms(2) show ?thesis by (simp add: table_def wf_state_def)
next
  case (Save t p language slow)
  then obtain r0 where "save E t p language slow st = (r0, st1)"
    using assms by (auto split: prod.splits)
  from save_frame[OF this] assms(2) show ?thesis by (simp add: table_def wf_state_def)
next
  case (SpeakAndSave t p language slow)
  then obtain r0 where "speak_and_save E t p language slow st = Some (r0, st1)"
    using assms by (auto split: option.splits)
  from speak_and_save_frame[OF this] assms(2) show ?thesis by (simp add: table_def wf_state_def)
next
  case (SpeakHinglish t slow auto_detect)
  then obtain r0 where "speak_hinglish E t slow auto_detect st = Some (r0, st1)"
    using assms by (auto split: option.splits)
  from speak_hinglish_frame[OF this] assms(2) show ?thesis by (simp add: table_def wf_state_def)
next
  case GetSupportedLanguages
  then show ?thesis using assms
    by (auto simp add: get_supported_languages_def Let_def table_def wf_state_def)
qed


lemma wf_state_init: "wf_state (init E fs)"
  by (simp add: wf_state_def init_fields)









lemma explicit_language_verbatim:
  "c \<noteq> [] \<Longrightarrow> speak E t (Some c) slow st = generate_and_play E t c (speed_or_current slow st) st"
  "c \<noteq> [] \<Longrightarrow> save E t p (Some c) slow st = generate_audio E t c (speed_or_current slow st) p st"
  "speak E t None slow st =
     generate_and_play E t (current_language (self st)) (speed_or_current slow st) st"
  "save E t p None slow st =
     generate_audio E t (current_language (self st)) (speed_or_current slow st) p st"
  "speak_hinglish E t b True st =
     (case auto_detect_language E t st of
        Inl e \<Rightarrow> Some (Inl e, st)
      | Inr lang \<Rightarrow> speak E t (Some lang) (Some b) st)"
  by (simp_all add: speak_def save_def lang_or_current_def speak_hinglish_def)

lemma set_language_spec:
  "dict_contains (table st) c \<Longrightarrow>
     set_language c st = (True, st\<lparr>self := (self st)\<lparr>current_language := c\<rparr>\<rparr>)"
  "\<not> dict_contains (table st) c \<Longrightarrow> set_language c st = (False, st)"
  by (simp_all add: set_language_def)

lemma speak_synth:
  assumes "speak E t language slow st = Some (r, st1)"
  shows "set (synth_languages (calls st1)) \<subseteq> set (synth_languages (calls st)) \<union> supported_codes st"
  using generate_and_play_spec[of E t "lang_or_current language st" "speed_or_current slow st" st r st1]
    assms by (auto simp add: speak_def Let_def supported_codes_def)

lemma save_synth:
  assumes "save E t p language slow st = (r, st1)"
  shows "set (synth_languages (calls st1)) \<subseteq> set (synth_languages (calls st)) \<union> supported_codes st"
  using generate_audio_spec[of E t "lang_or_current language st" "speed_or_current slow st" p st r st1]
    assms by (auto simp add: save_def Let_def supported_codes_def)

lemma speak_and_save_synth:
  assumes "speak_and_save E t p language slow st = Some (r, st1)"
  shows "set (synth_languages (calls st1)) \<subseteq> set (synth_languages (calls st)) \<union> supported_codes st"
proof -
  define l where "l = lang_or_current language st"
  define s where "s = speed_or_current slow st"
  obtain r0 st0 where ga: "generate_audio E t l s p st = (r0, st0)"
    by (cases "generate_audio E t l s p st")
  have g: "set (synth_languages (calls st0)) \<subseteq> set (synth_languages (calls st)) \<union> supported_codes st"
    using generate_audio_spec[OF ga] by (auto simp add: supported_codes_def)
  have "st1 = st0 \<or> (\<exists>r2. play_audio_file E p st0 = Some (r2, st1))"
    using assms ga
    by (auto simp add: speak_and_save_def Let_def l_def[symmetric] s_def[symmetric]
        split: sum.splits if_splits option.splits)
  then have "synth_languages (calls st1) = synth_languages (calls st0)"
    using play_audio_file_frame[of E p st0 _ st1] by auto
  then show ?thesis using g by simp
qed

lemma speak_hinglish_synth:
  assumes "speak_hinglish E t slow auto_detect st = Some (r, st1)"
  shows "set (synth_languages (calls st1)) \<subseteq> set (synth_languages (calls st)) \<union> supported_codes st"
proof (cases "st1 = st")
  case True
  then show ?thesis by auto
next
  case False
  then obtain language where "speak E t language (Some slow) st = Some (r, st1)"
    using assms by (auto simp add: speak_hinglish_def split: if_splits sum.splits)
  then show ?thesis by (rule speak_synth)
qed

lemma do_call_supported:
  assumes "do_call E c st = Some (r, st1)" "wf_state st"
    and "current_language (self st) \<in> supported_codes st"
    and "set (synth_languages (calls st)) \<subseteq> supported_codes st"
  shows "current_language (self st1) \<in> supported_codes st1 \<and>
         set (synth_languages (calls st1)) \<subseteq> supported_codes st1"
proof -
  have t: "supported_codes st1 = supported_codes st"
    using do_call_frame[OF assms(1,2)] by (simp add: supported_codes_def)
  show ?thesis
  proof (cases c)
    case (SetLanguage x)
    then show ?thesis using assms
      by (auto simp add: set_language_def supported_codes_def table_def split: if_splits)
  next
    case (SetSpeed x)
    then show ?thesis using assms by (auto simp add: set_speed_def supported_codes_def table_def)
  next
    case (Speak t language slow)
    then obtain r0 where a: "speak E t language slow st = Some (r0, st1)"
      using assms by (auto split: option.splits)
    from speak_frame[OF a] speak_synth[OF a] assms(3,4) t show ?thesis by auto
  next
    case (Save t p language slow)
    then obtain r0 where a: "save E t p language slow st = (r0, st1)"
      using assms by (auto split: prod.splits)
    from save_frame[OF a] save_synth[OF a] assms(3,4) t show ?thesis by auto
  next
    case (SpeakAndSave t p language slow)
    then obtain r0 where a: "speak_and_save E t p language slow st = Some (r0, st1)"
      using assms by (auto split: option.splits)
    from speak_and_save_frame[OF a] speak_and_save_synth[OF a] assms(3,4) t show ?thesis by auto
  next
    case (SpeakHinglish t slow auto_detect)
    then obtain r0 where a: "speak_hinglish E t slow auto_detect st = Some (r0, st1)"
      using assms by (auto split: option.splits)
    from speak_hinglish_frame[OF a] speak_hinglish_synth[OF a] assms(3,4) t show ?thesis by auto
  next
    case GetSupportedLanguages
    then show ?thesis using assms t
      by (auto simp add: get_supported_languages_def Let_def)
  qed
qed

lemma run_supported:
  assumes "run cs st = Some (rs, st1)" "wf_state st"
    and "current_language (self st) \<in> supported_codes st"
    and "set (synth_languages (calls st)) \<subseteq> supported_codes st"
  shows "current_language (self st1) \<in> supported_codes st1 \<and>
         set (synth_languages (calls st1)) \<subseteq> supported_codes st1"
  using assms
proof (induction cs arbitrary: st rs)
  case Nil
  then show ?case by simp
next
  case (Cons x cs)
  obtain E c where x: "x = (E, c)" by (cases x)
  from Cons.prems(1) x obtain r0 st0 rs0 where
    d: "do_call E c st = Some (r0, st0)" and r: "run cs st0 = Some (rs0, st1)"
    by (auto split: option.splits)
  from do_call_frame[OF d Cons.prems(2)] have wf0: "wf_state st0" by simp
  from do_call_supported[OF d Cons.prems(2,3,4)] Cons.IH[OF r wf0] show ?case by simp
qed

lemma session_codes_supported:
  assumes "run cs (init E fs) = Some (rs, st)"
  shows "dict_contains (table st) (current_language (self st))"
    and "\<forall>l \<in> set (synth_languages (calls st)). dict_contains (table st) l"
proof -
  have "current_language (self (init E fs)) \<in> supported_codes (init E fs)"
    by (simp add: supported_codes_def init_table init_fields initial_codes)
  moreover have "set (synth_languages (calls (init E fs))) \<subseteq> supported_codes (init E fs)"
    by (simp add: init_fields)
  ultimately have "current_language (self st) \<in> supported_codes st \<and>
         set (synth_languages (calls st)) \<subseteq> supported_codes st"
    using run_supported[OF assms wf_state_init] by simp
  then show "dict_contains (table st) (current_language (self st))"
    and "\<forall>l \<in> set (synth_languages (calls st)). dict_contains (table st) l"
    by (auto simp add: supported_codes_def)
qed

end
